theory Spec2Isabelle
  imports Main "HOL-Library.Char_ord" "HOL-Library.List_Lexorder" "HOL-Library.AList"
    "HOL-Library.Sublist" "HOL-Library.Multiset"
begin

section \<open>Data model (main.go, lines 20-36)\<close>

text \<open>
  Go strings are byte sequences; \<open>string\<close> is a list of 8-bit characters. Go compares
  strings with \<open><\<close> byte by byte, a proper prefix being smaller: this is the
  lexicographic order on character lists over the order of character codes.
\<close>

record RepoConfig =
  Directory :: string
  Remote :: string

record Config =
  Repos :: "RepoConfig list"

record Flag =
  RootDir :: string
  Update :: bool
  Upgrade :: bool

section \<open>Merging the repository list (update, lines 227-239)\<close>

text \<open>
  \<open>repoDict\<close> is a Go map from directory to remote. It is modelled as an association list
  with unique keys: an assignment \<open>repoDict[k] = v\<close> replaces the value of an existing key
  or adds the key. The loop of lines 229-231 assigns every entry in order.
\<close>

definition repoDict_of :: "RepoConfig list \<Rightarrow> (string \<times> string) list" where
  "repoDict_of repos =
     foldl (\<lambda>d repo. AList.update (Directory repo) (Remote repo) d) [] repos"

text \<open>
  Lines 232-235 range over the map and append one entry per key. Go leaves the order of
  that iteration open; the model takes the order of the association list, and
  \<open>range_order_irrelevant\<close> below shows that the sorted result is the same for every
  order.
\<close>

definition entries_of :: "(string \<times> string) list \<Rightarrow> RepoConfig list" where
  "entries_of d = map (\<lambda>(dir, remote). \<lparr>Directory = dir, Remote = remote\<rparr>) d"

text \<open>Lines 236-238: \<open>sort.Slice\<close> with the comparison \<open>Directory < Directory\<close>.\<close>

definition merge_repos :: "RepoConfig list \<Rightarrow> RepoConfig list" where
  "merge_repos repos = sort_key Directory (entries_of (repoDict_of repos))"

text \<open>The remote that the last entry for a directory gives, if there is one.\<close>

definition last_remote :: "RepoConfig list \<Rightarrow> string \<Rightarrow> string option" where
  "last_remote repos dir = map_of (rev (map (\<lambda>r. (Directory r, Remote r)) repos)) dir"

definition manifest_old :: "RepoConfig list" where
  "manifest_old =
     [\<lparr>Directory = ''/r/b'', Remote = ''u1''\<rparr>, \<lparr>Directory = ''/r/a'', Remote = ''u0''\<rparr>]"

definition manifest_found :: "RepoConfig list" where
  "manifest_found = [\<lparr>Directory = ''/r/b'', Remote = ''u2''\<rparr>]"

section \<open>The status template (main.go, lines 90-96)\<close>

text \<open>
  \<open>gitStatusTemplateRe\<close> is compiled by Go's \<open>regexp\<close> package from a raw string literal.
  The pattern uses \<open>^\<close> and \<open>$\<close> (without the multi-line flag: beginning and end of the
  text), literal characters, \<open>\d\<close> (an ASCII digit), \<open>+\<close>, \<open>?\<close>, alternation and groups.
  \<open>rx\<close> has one constructor for each; \<open>Lit\<close> holds a run of literal characters.
\<close>

datatype rx =
    BeginText
  | EndText
  | Lit string
  | Digit
  | Cat rx rx
  | Alt rx rx
  | Opt rx
  | Plus rx

definition is_digit :: "char \<Rightarrow> bool" where
  "is_digit c = (c \<in> set ''0123456789'')"

text \<open>
  \<open>rx_rests text r rest\<close> lists what can remain of \<open>rest\<close>, a suffix of \<open>text\<close>, after
  \<open>r\<close> has matched at its front. For \<open>r+\<close> the expression is tried again on every
  remainder that is shorter than before, at most \<open>length rest\<close> more times: a repetition
  that consumes nothing adds no new remainder.
\<close>

fun plus_iter :: "(string \<Rightarrow> string list) \<Rightarrow> nat \<Rightarrow> string \<Rightarrow> string list" where
  "plus_iter f 0 rest = f rest"
| "plus_iter f (Suc n) rest =
     f rest @ concat (map (plus_iter f n) (filter (\<lambda>r. length r < length rest) (f rest)))"

fun rx_rests :: "string \<Rightarrow> rx \<Rightarrow> string \<Rightarrow> string list" where
  "rx_rests text BeginText rest = (if length rest = length text then [rest] else [])"
| "rx_rests text EndText rest = (if rest = [] then [rest] else [])"
| "rx_rests text (Lit w) rest = (if prefix w rest then [drop (length w) rest] else [])"
| "rx_rests text Digit rest =
     (case rest of [] \<Rightarrow> [] | c # cs \<Rightarrow> if is_digit c then [cs] else [])"
| "rx_rests text (Cat a b) rest = concat (map (rx_rests text b) (rx_rests text a rest))"
| "rx_rests text (Alt a b) rest = rx_rests text a rest @ rx_rests text b rest"
| "rx_rests text (Opt a) rest = rx_rests text a rest @ [rest]"
| "rx_rests text (Plus a) rest = plus_iter (rx_rests text a) (length rest) rest"

text \<open>
  \<open>Regexp.Match\<close> reports whether the text contains a match: the expression may start
  at any position of the text.
\<close>

definition rx_Match :: "rx \<Rightarrow> string \<Rightarrow> bool" where
  "rx_Match r text = list_ex (\<lambda>rest. rx_rests text r rest \<noteq> []) (suffixes text)"

definition nl :: string where
  "nl = [CHR 0x0A]"

definition hint_text :: string where
  \<open>hint_text = ''  (use "git pull" to update your local branch)''\<close>

text \<open>The first alternative of line 91.\<close>

definition re_behind :: rx where
  "re_behind =
     Cat (Lit ''Your branch is behind 'origin/master' by '')
    (Cat (Plus Digit)
    (Cat (Lit '' commit'')
    (Cat (Opt (Lit ''s''))
         (Lit '', and can be fast-forwarded.''))))"

text \<open>The second alternative of line 91.\<close>

definition re_uptodate :: rx where
  "re_uptodate = Lit ''Your branch is up-to-date with 'origin/master'.''"

text \<open>
  The whole pattern. The raw string literal contains a line break after each of its first
  four lines; the group of line 92 ends with the escape \<open>\n\<close> and is followed by the line
  break of the literal.
\<close>

definition gitStatusTemplateRe :: rx where
  "gitStatusTemplateRe =
     Cat BeginText
    (Cat (Lit (''On branch master'' @ nl))
    (Cat (Alt re_behind re_uptodate)
    (Cat (Lit nl)
    (Cat (Opt (Lit (hint_text @ nl)))
    (Cat (Lit (nl @ ''nothing to commit, working tree clean'' @ nl))
         EndText)))))"

subsection \<open>Status texts of a clean working tree\<close>

definition uptodate_line :: string where
  "uptodate_line = ''Your branch is up-to-date with 'origin/master'.''"

definition behind_line :: "string \<Rightarrow> bool \<Rightarrow> string" where
  "behind_line ds plural =
     ''Your branch is behind 'origin/master' by '' @ ds @ '' commit'' @
     (if plural then ''s'' else []) @ '', and can be fast-forwarded.''"

text \<open>
  A tracking line: up to date, or behind by a number (a non-empty string of digits) of
  commits and fast-forwardable.
\<close>

definition line_ok :: "string \<Rightarrow> bool" where
  "line_ok line \<longleftrightarrow> line = uptodate_line \<or>
      (\<exists>ds pl. ds \<noteq> [] \<and> list_all is_digit ds \<and> line = behind_line ds pl)"

text \<open>
  What \<open>git status\<close> prints on branch master with a clean working tree: the branch line,
  the tracking line, the hint (with a behind branch), an empty line and the clean line.
\<close>

definition clean_status :: "string \<Rightarrow> bool \<Rightarrow> string" where
  "clean_status line hint =
     ''On branch master'' @ nl @ line @ nl @ (if hint then hint_text @ nl else []) @
     nl @ ''nothing to commit, working tree clean'' @ nl"

definition clean_line :: string where
  "clean_line = nl @ ''nothing to commit, working tree clean'' @ nl"

text \<open>The status text of the specification's scenario: no empty line before the clean line.\<close>

definition scenario_status :: string where
  "scenario_status =
     ''On branch master'' @ nl @ ''Your branch is up-to-date with 'origin/master'.'' @ nl @
     ''nothing to commit, working tree clean'' @ nl"

section \<open>The environment\<close>

text \<open>
  Errors the operating system and the libraries report, and the error values the program
  handles: the sentinel \<open>filepath.SkipDir\<close>, an error passed on from the environment, or
  one made with \<open>errors.New\<close>. The environment never produces \<open>SkipDir\<close>.
\<close>

datatype oserr = NotExist | OsError string

datatype error = SkipDir | Sys oserr | Msg string

datatype cmd =
    GitClone string string
  | GitFetch string
  | GitStatus string
  | GitPull string

text \<open>
  How far the sequence pipe, \<open>Start\<close>, \<open>ReadAll\<close>, \<open>Wait\<close> of one command gets, with
  the output read from the pipe where the program keeps it.
\<close>

datatype proc_result =
    PipeFailed oserr
  | StartFailed oserr
  | ReadFailed oserr
  | WaitFailed string oserr
  | Exited string

datatype level = Info | Warning | Error

text \<open>The log lines of main.go, without the durations that two of them print.\<close>

datatype logmsg =
    RecursivelyCheck string
  | TopError error
  | Upgrading
  | Upgraded
  | CloneFailed string error string
  | CloneFinished string
  | FetchFailed string error string
  | FetchFinished string
  | UpgradeSkipped string
  | UpgradeFailed string error string
  | UpgradeFinished string
  | Updating
  | Updated nat
  | WalkError error

datatype event =
    Log level logmsg
  | Exec cmd
  | ReadManifest string
  | WriteManifest string string

record FileInfo =
  IsDir :: bool
  Name :: string

text \<open>
  The directory tree as \<open>filepath.Walk\<close> sees it: a non-directory, a directory with its
  entries in the order \<open>Walk\<close> visits them, an entry whose \<open>Lstat\<close> fails, a directory
  whose entries cannot be read.
\<close>

datatype fsnode =
    File string
  | Dir string "fsnode list"
  | NoStat string oserr
  | NoList string oserr

text \<open>
  What \<open>remoteDir\<close> meets in a repository's configuration: \<open>os.Open\<close> fails,
  \<open>ini.Load\<close> fails, \<open>Section\<close> returns nil, \<open>Key\<close> returns nil, or the key has a value.
\<close>

datatype cfg_result =
    OpenFailed oserr
  | LoadFailed oserr
  | NoSection
  | NoKey
  | Url string

text \<open>
  The operating system and the libraries, over a state \<open>'w\<close> of the outside world
  (file system, remotes). Running a command and writing a file may change that state.
\<close>

text \<open>
  What \<open>flag.Parse\<close> does with the command line: it fills \<open>flags\<close> and returns, or it
  ends the process with a status (the default flag set exits on a parse error).
\<close>

datatype parse_outcome = Parsed Flag | Exits nat

record 'w sys =
  flag_Parse :: "string list \<Rightarrow> Flag \<Rightarrow> parse_outcome"
  filepath_Join :: "string \<Rightarrow> string \<Rightarrow> string"
  filepath_Dir :: "string \<Rightarrow> string"
  os_Stat :: "string \<Rightarrow> 'w \<Rightarrow> oserr option"
  run :: "cmd \<Rightarrow> 'w \<Rightarrow> proc_result \<times> 'w"
  lstat_tree :: "string \<Rightarrow> 'w \<Rightarrow> fsnode"
  git_config :: "string \<Rightarrow> 'w \<Rightarrow> cfg_result"
  ioutil_ReadFile :: "string \<Rightarrow> 'w \<Rightarrow> oserr + string"
  ioutil_WriteFile :: "string \<Rightarrow> string \<Rightarrow> 'w \<Rightarrow> oserr option \<times> 'w"
  yaml_Unmarshal :: "string \<Rightarrow> oserr + Config"
  yaml_Marshal :: "Config \<Rightarrow> oserr + string"

text \<open>
  The program's state: the outside world, the global \<open>config\<close>, and what the run has
  done so far (commands run, files read and written, log lines).
\<close>

record 'w state =
  world :: 'w
  config :: Config
  trace :: "event list"

definition emit :: "event \<Rightarrow> 'w state \<Rightarrow> 'w state" where
  "emit e s = s\<lparr>trace := trace s @ [e]\<rparr>"

definition exec :: "'w sys \<Rightarrow> cmd \<Rightarrow> 'w state \<Rightarrow> proc_result \<times> 'w state" where
  "exec sys c s =
     (case run sys c (world s) of (r, w') \<Rightarrow> (r, emit (Exec c) (s\<lparr>world := w'\<rparr>)))"

text \<open>
  The tail that \<open>gitClone\<close>, \<open>gitFetch\<close> and \<open>gitPull\<close> share (lines 53-67, 73-87,
  123-137): the output is returned only from \<open>Wait\<close> on.
\<close>

fun collect :: "proc_result \<Rightarrow> string \<times> error option" where
  "collect (PipeFailed e) = ([], Some (Sys e))"
| "collect (StartFailed e) = ([], Some (Sys e))"
| "collect (ReadFailed e) = ([], Some (Sys e))"
| "collect (WaitFailed out e) = (out, Some (Sys e))"
| "collect (Exited out) = (out, None)"

section \<open>The three steps (lines 44-138)\<close>

definition gitClone ::
  "'w sys \<Rightarrow> RepoConfig \<Rightarrow> 'w state \<Rightarrow> (string \<times> error option) \<times> 'w state" where
  "gitClone sys repo s =
     (case os_Stat sys (filepath_Join sys (Directory repo) ''.git'') (world s) of
        None \<Rightarrow> (([], Some SkipDir), s)
      | Some e \<Rightarrow>
          if e \<noteq> NotExist then (([], Some (Sys e)), s)
          else (case exec sys (GitClone (Remote repo) (Directory repo)) s of
                  (r, s') \<Rightarrow> (collect r, s')))"

definition gitFetch ::
  "'w sys \<Rightarrow> RepoConfig \<Rightarrow> 'w state \<Rightarrow> (string \<times> error option) \<times> 'w state" where
  "gitFetch sys repo s =
     (case exec sys (GitFetch (Directory repo)) s of (r, s') \<Rightarrow> (collect r, s'))"

definition gitPull ::
  "'w sys \<Rightarrow> RepoConfig \<Rightarrow> 'w state \<Rightarrow> (string \<times> error option) \<times> 'w state" where
  "gitPull sys repo s =
     (case exec sys (GitStatus (Directory repo)) s of
        (PipeFailed e, s') \<Rightarrow> (([], Some (Sys e)), s')
      | (StartFailed e, s') \<Rightarrow> (([], Some (Sys e)), s')
      | (ReadFailed e, s') \<Rightarrow> (([], Some (Sys e)), s')
      | (WaitFailed out e, s') \<Rightarrow> (([], Some (Sys e)), s')
      | (Exited out, s') \<Rightarrow>
          if \<not> rx_Match gitStatusTemplateRe out then (([], Some SkipDir), s')
          else (case exec sys (GitPull (Directory repo)) s' of
                  (r, s'') \<Rightarrow> (collect r, s'')))"

section \<open>upgrade (lines 140-174)\<close>

text \<open>Lines 164-171.\<close>

definition pull_step :: "'w sys \<Rightarrow> RepoConfig \<Rightarrow> 'w state \<Rightarrow> 'w state" where
  "pull_step sys repo s =
     (case gitPull sys repo s of
        ((stderr, err), s') \<Rightarrow>
          if err = Some SkipDir then emit (Log Warning (UpgradeSkipped (Directory repo))) s'
          else (case err of
                  Some e \<Rightarrow> emit (Log Error (UpgradeFailed (Directory repo) e stderr)) s'
                | None \<Rightarrow> emit (Log Info (UpgradeFinished (Directory repo))) s'))"

text \<open>Lines 158-163, followed by the pull step unless the loop continues.\<close>

definition fetch_step :: "'w sys \<Rightarrow> RepoConfig \<Rightarrow> 'w state \<Rightarrow> 'w state" where
  "fetch_step sys repo s =
     (case gitFetch sys repo s of
        ((stderr, err), s') \<Rightarrow>
          (case err of
             Some e \<Rightarrow> emit (Log Error (FetchFailed (Directory repo) e stderr)) s'
           | None \<Rightarrow> pull_step sys repo (emit (Log Info (FetchFinished (Directory repo))) s')))"

text \<open>The body of the loop, lines 150-171.\<close>

definition upgrade_repo :: "'w sys \<Rightarrow> RepoConfig \<Rightarrow> 'w state \<Rightarrow> 'w state" where
  "upgrade_repo sys repo s =
     (case gitClone sys repo s of
        ((stderr, err), s') \<Rightarrow>
          if err = Some SkipDir then fetch_step sys repo s'
          else (case err of
                  Some e \<Rightarrow> emit (Log Error (CloneFailed (Directory repo) e stderr)) s'
                | None \<Rightarrow>
                    fetch_step sys repo (emit (Log Info (CloneFinished (Directory repo))) s')))"

definition upgrade_loop :: "'w sys \<Rightarrow> RepoConfig list \<Rightarrow> 'w state \<Rightarrow> 'w state" where
  "upgrade_loop sys repos s = foldl (\<lambda>s repo. upgrade_repo sys repo s) s repos"

definition upgrade :: "'w sys \<Rightarrow> 'w state \<Rightarrow> error option \<times> 'w state" where
  "upgrade sys s =
     (let s1 = emit (Log Info Upgrading) s;
          s2 = upgrade_loop sys (Repos (config s1)) s1
      in (None, emit (Log Info Upgraded) s2))"

section \<open>update (lines 176-240)\<close>

definition remoteDir :: "'w sys \<Rightarrow> string \<Rightarrow> 'w \<Rightarrow> string \<times> error option" where
  \<open>remoteDir sys path w =
     (case git_config sys (filepath_Join sys path ''config'') w of
        OpenFailed e \<Rightarrow> ([], Some (Sys e))
      | LoadFailed e \<Rightarrow> ([], Some (Sys e))
      | NoSection \<Rightarrow> ([], Some (Msg (''can't find "origin" in '' @ path)))
      | NoKey \<Rightarrow> ([], Some (Msg (''can't find "origin.url" in '' @ path)))
      | Url u \<Rightarrow> (u, None))\<close>

text \<open>
  \<open>Walk\<close> calls the function of lines 206-223 either with the \<open>FileInfo\<close> of an entry and
  a nil error, or with an error; then the function returns at line 209, before it reads
  \<open>info\<close>.
\<close>

datatype visit = Entry FileInfo | Failed error

definition walkFn ::
  "'w sys \<Rightarrow> string \<Rightarrow> visit \<Rightarrow> 'w state \<Rightarrow> error option \<times> 'w state" where
  "walkFn sys path v s =
     (case v of
        Failed e \<Rightarrow> (Some e, emit (Log Error (WalkError e)) s)
      | Entry info \<Rightarrow>
          if \<not> IsDir info \<or> Name info \<noteq> ''.git'' then (None, s)
          else (case remoteDir sys path (world s) of
                  (remote, Some e) \<Rightarrow> (Some e, s)
                | (remote, None) \<Rightarrow>
                    (Some SkipDir,
                     s\<lparr>config := \<lparr>Repos = Repos (config s) @
                        [\<lparr>Directory = filepath_Dir sys path, Remote = remote\<rparr>]\<rparr>\<rparr>)))"

fun node_name :: "fsnode \<Rightarrow> string" where
  "node_name (File n) = n"
| "node_name (Dir n kids) = n"
| "node_name (NoStat n e) = n"
| "node_name (NoList n e) = n"

fun is_file :: "fsnode \<Rightarrow> bool" where
  "is_file (File n) = True"
| "is_file other = False"

text \<open>
  \<open>filepath.Walk\<close> of the Go standard library. A directory is handed to the function
  (with the error of reading its entries, if any) before its entries are walked; an error
  from the function ends the walk, except that \<open>SkipDir\<close> returned for a directory or
  for an entry without \<open>FileInfo\<close> only leaves that entry out.
\<close>

fun walk :: "'w sys \<Rightarrow> string \<Rightarrow> fsnode \<Rightarrow> 'w state \<Rightarrow> error option \<times> 'w state"
  and walk_names ::
    "'w sys \<Rightarrow> string \<Rightarrow> fsnode list \<Rightarrow> 'w state \<Rightarrow> error option \<times> 'w state" where
  "walk sys path (File n) s = walkFn sys path (Entry \<lparr>IsDir = False, Name = n\<rparr>) s"
| "walk sys path (NoStat n e) s = walkFn sys path (Failed (Sys e)) s"
| "walk sys path (NoList n e) s = walkFn sys path (Failed (Sys e)) s"
| "walk sys path (Dir n kids) s =
     (case walkFn sys path (Entry \<lparr>IsDir = True, Name = n\<rparr>) s of
        (Some e, s') \<Rightarrow> (Some e, s')
      | (None, s') \<Rightarrow> walk_names sys path kids s')"
| "walk_names sys path [] s = (None, s)"
| "walk_names sys path (k # ks) s =
     (case walk sys (filepath_Join sys path (node_name k)) k s of
        (None, s') \<Rightarrow> walk_names sys path ks s'
      | (Some e, s') \<Rightarrow>
          if e = SkipDir \<and> \<not> is_file k then walk_names sys path ks s' else (Some e, s'))"

definition Walk :: "'w sys \<Rightarrow> string \<Rightarrow> 'w state \<Rightarrow> error option \<times> 'w state" where
  "Walk sys root s =
     (case walk sys root (lstat_tree sys root (world s)) s of
        (err, s') \<Rightarrow> if err = Some SkipDir then (None, s') else (err, s'))"

text \<open>
  \<open>update\<close>: the walk appends to \<open>config.Repos\<close>; lines 227-239 merge. The deferred
  function logs the number of repositories on both ways out.
\<close>

definition update :: "'w sys \<Rightarrow> Flag \<Rightarrow> 'w state \<Rightarrow> error option \<times> 'w state" where
  "update sys fl s =
     (case Walk sys (RootDir fl) (emit (Log Info Updating) s) of
        (Some e, s') \<Rightarrow> (Some e, emit (Log Info (Updated (length (Repos (config s'))))) s')
      | (None, s') \<Rightarrow>
          (let s'' = s'\<lparr>config := \<lparr>Repos = merge_repos (Repos (config s'))\<rparr>\<rparr>
           in (None, emit (Log Info (Updated (length (Repos (config s''))))) s'')))"

text \<open>
  The repositories a walk without errors finds: the directories named \<open>.git\<close> that do
  not lie inside another one, by their paths.
\<close>

fun git_dirs :: "'w sys \<Rightarrow> string \<Rightarrow> fsnode \<Rightarrow> string list"
  and git_dirs_in :: "'w sys \<Rightarrow> string \<Rightarrow> fsnode list \<Rightarrow> string list" where
  "git_dirs sys path (Dir n kids) = (if n = ''.git'' then [path] else git_dirs_in sys path kids)"
| "git_dirs sys path (File n) = []"
| "git_dirs sys path (NoStat n e) = []"
| "git_dirs sys path (NoList n e) = []"
| "git_dirs_in sys path [] = []"
| "git_dirs_in sys path (k # ks) =
     git_dirs sys (filepath_Join sys path (node_name k)) k @ git_dirs_in sys path ks"

text \<open>The errors of the walk itself: entries without \<open>Lstat\<close>, unreadable directories.\<close>

fun tree_errors :: "fsnode \<Rightarrow> oserr list"
  and tree_errors_in :: "fsnode list \<Rightarrow> oserr list" where
  "tree_errors (Dir n kids) = tree_errors_in kids"
| "tree_errors (File n) = []"
| "tree_errors (NoStat n e) = [e]"
| "tree_errors (NoList n e) = [e]"
| "tree_errors_in [] = []"
| "tree_errors_in (k # ks) = tree_errors k @ tree_errors_in ks"

section \<open>do and main (lines 242-285)\<close>

definition manifest_path :: "'w sys \<Rightarrow> Flag \<Rightarrow> string" where
  "manifest_path sys fl = filepath_Join sys (RootDir fl) ''repositories.txt''"

definition do :: "'w sys \<Rightarrow> Flag \<Rightarrow> 'w state \<Rightarrow> error option \<times> 'w state" where
  "do sys fl s =
     (let filename = manifest_path sys fl;
          s0 = emit (ReadManifest filename) s
      in case ioutil_ReadFile sys filename (world s0) of
           Inl e \<Rightarrow> (Some (Sys e), s0)
         | Inr configYAML \<Rightarrow>
            (case yaml_Unmarshal sys configYAML of
               Inl e \<Rightarrow> (Some (Sys e), s0)
             | Inr c \<Rightarrow>
                (case (if Update fl then update sys fl (s0\<lparr>config := c\<rparr>)
                       else (None, s0\<lparr>config := c\<rparr>)) of
                   (Some e, s1) \<Rightarrow> (Some e, s1)
                 | (None, s1) \<Rightarrow>
                    (case (if Upgrade fl then upgrade sys s1 else (None, s1)) of
                       (Some e, s2) \<Rightarrow> (Some e, s2)
                     | (None, s2) \<Rightarrow>
                        if Update fl then
                          (case yaml_Marshal sys (config s2) of
                             Inl e \<Rightarrow> (Some (Sys e), s2)
                           | Inr out \<Rightarrow>
                              (case ioutil_WriteFile sys filename out (world s2) of
                                 (werr, w') \<Rightarrow>
                                   (map_option Sys werr,
                                    emit (WriteManifest filename out) (s2\<lparr>world := w'\<rparr>))))
                        else (None, s2)))))"

text \<open>The flags with the defaults that \<open>init\<close> registers (lines 38-42).\<close>

definition flags_init :: Flag where
  "flags_init = \<lparr>RootDir = ''/Volumes/Code/src'', Update = True, Upgrade = True\<rparr>"

text \<open>
  \<open>main\<close>, from the command line \<open>args\<close>. The first component is the status the process
  ends with: the one \<open>flag.Parse\<close> exits with, or 0 when \<open>main\<close> returns, since \<open>main\<close>
  itself calls no exit function.
\<close>

definition main :: "'w sys \<Rightarrow> string list \<Rightarrow> 'w state \<Rightarrow> nat \<times> 'w state" where
  "main sys args s =
     (case flag_Parse sys args flags_init of
        Exits status \<Rightarrow> (status, s)
      | Parsed fl \<Rightarrow>
          (case do sys fl (emit (Log Info (RecursivelyCheck (RootDir fl))) s) of
             (Some e, s') \<Rightarrow> (0, emit (Log Error (TopError e)) s')
           | (None, s') \<Rightarrow> (0, s')))"

section \<open>Reading the trace\<close>

text \<open>The events that belong to the clone step.\<close>

fun clone_event :: "event \<Rightarrow> bool" where
  "clone_event (Exec (GitClone remote dir)) = True"
| "clone_event (Log l (CloneFailed dir e out)) = True"
| "clone_event (Log l (CloneFinished dir)) = True"
| "clone_event other = False"

text \<open>
  The stage an event belongs to: 0 loading the manifest, 1 discovery, 2 reconciliation,
  3 writing the manifest back. The two log lines of \<open>main\<close> come before and after.
\<close>

fun stage_of_msg :: "logmsg \<Rightarrow> nat" where
  "stage_of_msg (RecursivelyCheck d) = 0"
| "stage_of_msg Updating = 1"
| "stage_of_msg (Updated n) = 1"
| "stage_of_msg (WalkError e) = 1"
| "stage_of_msg (TopError e) = 4"
| "stage_of_msg other = 2"

fun stage_of :: "event \<Rightarrow> nat" where
  "stage_of (ReadManifest f) = 0"
| "stage_of (Log l m) = stage_of_msg m"
| "stage_of (Exec c) = 2"
| "stage_of (WriteManifest f out) = 3"

text \<open>\<open>s'\<close> continues \<open>s\<close> with events that all satisfy \<open>P\<close>.\<close>

definition extends :: "(event \<Rightarrow> bool) \<Rightarrow> 'w state \<Rightarrow> 'w state \<Rightarrow> bool" where
  "extends P s s' \<longleftrightarrow> (\<exists>evs. trace s' = trace s @ evs \<and> list_all P evs)"

section \<open>A small environment for examples\<close>

definition dirty_status :: string where
  "dirty_status =
     ''On branch master'' @ nl @ uptodate_line @ nl @ nl @
     ''Changes not staged for commit:'' @ nl @ nl @
     [CHR 0x09] @ ''modified:   main.go'' @ nl @ nl @
     ''no changes added to commit'' @ nl"

definition develop_status :: string where
  "develop_status =
     ''On branch '' @ ''develop'' @ nl @
     ''Your branch is up-to-date with '' @ [CHR 0x27] @ ''origin/develop'' @ [CHR 0x27] @
     ''.'' @ nl @ nl @ ''nothing to commit, working tree clean'' @ nl"

definition upstream_status :: string where
  "upstream_status =
     ''On branch master'' @ nl @
     ''Your branch is up-to-date with '' @ [CHR 0x27] @ ''upstream/master'' @ [CHR 0x27] @
     ''.'' @ nl @ nl @ ''nothing to commit, working tree clean'' @ nl"

definition demo_run :: "cmd \<Rightarrow> unit \<Rightarrow> proc_result \<times> unit" where
  "demo_run c w =
     (case c of
        GitClone remote dir \<Rightarrow>
          (WaitFailed ''fatal: repository not found'' (OsError ''exit status 128''), w)
      | GitFetch dir \<Rightarrow>
          (if dir = ''/r/d''
           then WaitFailed ''fatal: unable to access'' (OsError ''exit status 128'')
           else Exited [], w)
      | GitStatus dir \<Rightarrow>
          (Exited (if dir = ''/r/b'' then dirty_status
                   else if dir = ''/r/e'' then scenario_status
                   else if dir = ''/r/f'' then develop_status
                   else clean_status uptodate_line False), w)
      | GitPull dir \<Rightarrow> (Exited [], w))"

text \<open>
  The parsing of the flag package for a flag set that holds the three flags of lines
  39-41 only (the flags a logging library may add are left out of the example): an
  argument that is not a flag, or \<open>--\<close>, ends the flags; a boolean flag stands alone or
  takes \<open>=value\<close>; \<open>-dir\<close> takes \<open>=value\<close> or the next argument; \<open>-h\<close> and \<open>-help\<close> exit
  with status 0, every error with status 2.
\<close>

definition ParseBool :: "string \<Rightarrow> bool option" where
  "ParseBool v =
     (if v \<in> set [''1'', ''t'', ''T'', ''TRUE'', ''true'', ''True''] then Some True
      else if v \<in> set [''0'', ''f'', ''F'', ''FALSE'', ''false'', ''False''] then Some False
      else None)"

fun parse_three_flags :: "string list \<Rightarrow> Flag \<Rightarrow> parse_outcome" where
  "parse_three_flags [] fl = Parsed fl"
| "parse_three_flags (a # args) fl =
     (if length a < 2 \<or> hd a \<noteq> CHR ''-'' \<or> a = ''--'' then Parsed fl
      else
        (let body = (if a ! 1 = CHR ''-'' then drop 2 a else drop 1 a);
             name = takeWhile (\<lambda>c. c \<noteq> CHR ''='') body;
             hasValue = (CHR ''='' \<in> set body);
             v = drop (Suc (length name)) body
         in if body = [] \<or> hd body = CHR ''-'' \<or> hd body = CHR ''='' then Exits 2
            else if name = ''update'' then
              (case (if hasValue then ParseBool v else Some True) of
                 None \<Rightarrow> Exits 2
               | Some b \<Rightarrow> parse_three_flags args (fl\<lparr>Update := b\<rparr>))
            else if name = ''upgrade'' then
              (case (if hasValue then ParseBool v else Some True) of
                 None \<Rightarrow> Exits 2
               | Some b \<Rightarrow> parse_three_flags args (fl\<lparr>Upgrade := b\<rparr>))
            else if name = ''dir'' then
              (if hasValue then parse_three_flags args (fl\<lparr>RootDir := v\<rparr>)
               else (case args of
                       [] \<Rightarrow> Exits 2
                     | v' # rest \<Rightarrow> parse_three_flags rest (fl\<lparr>RootDir := v'\<rparr>)))
            else if name = ''help'' \<or> name = ''h'' then Exits 0
            else Exits 2))"

definition demo_repo :: fsnode where
  "demo_repo = Dir ''a'' [Dir ''.git'' [File ''config''], File ''main.go'']"

definition demo_tree :: fsnode where
  "demo_tree = Dir ''r'' [demo_repo, Dir ''b'' [Dir ''.git'' [File ''config'']]]"

definition demo_manifest :: "RepoConfig list" where
  "demo_manifest =
     [\<lparr>Directory = ''/r/c'', Remote = ''uc''\<rparr>, \<lparr>Directory = ''/r/a'', Remote = ''u0''\<rparr>]"

text \<open>
  Under \<open>/r\<close> the repository \<open>/r/a\<close> has an origin and \<open>/r/b\<close> has none; \<open>/r/c\<close> does
  not exist and cannot be cloned; fetching \<open>/r/d\<close> fails. There is no manifest under
  \<open>/none\<close>, and the one under \<open>/bad\<close> does not parse.
\<close>

definition demo_sys :: "unit sys" where
  "demo_sys =
     \<lparr>flag_Parse = parse_three_flags,
      filepath_Join = (\<lambda>a b. a @ ''/'' @ b),
      filepath_Dir = (\<lambda>p. rev (tl (dropWhile (\<lambda>c. c \<noteq> CHR ''/'') (rev p)))),
      os_Stat = (\<lambda>p w. if p = ''/r/c/.git'' then Some NotExist else None),
      run = demo_run,
      lstat_tree = (\<lambda>root w. if root = ''/r'' then demo_tree
                              else if root = ''/r/a'' then demo_repo
                              else NoStat root NotExist),
      git_config = (\<lambda>p w. if p = ''/r/a/.git/config'' then Url ''u1'' else NoSection),
      ioutil_ReadFile = (\<lambda>p w. if p = ''/none/repositories.txt'' then Inl NotExist
                                else if p = ''/bad/repositories.txt'' then Inr ''{''
                                else Inr ''repos: ...''),
      ioutil_WriteFile = (\<lambda>p out w. (None, w)),
      yaml_Unmarshal = (\<lambda>text. if text = ''{'' then Inl (OsError ''yaml: line 1'')
                               else Inr \<lparr>Repos = demo_manifest\<rparr>),
      yaml_Marshal = (\<lambda>c. Inr ''repos: ...'')\<rparr>"

definition demo_state :: "unit state" where
  "demo_state = \<lparr>world = (), config = \<lparr>Repos = []\<rparr>, trace = []\<rparr>"

definition demo_flags :: "string \<Rightarrow> Flag" where
  "demo_flags root = \<lparr>RootDir = root, Update = True, Upgrade = True\<rparr>"

section \<open>Properties of the merge\<close>

lemma map_of_foldl_update:
  "map_of (foldl (\<lambda>d repo. AList.update (Directory repo) (Remote repo) d) acc repos) dir
   = (case last_remote repos dir of Some v \<Rightarrow> Some v | None \<Rightarrow> map_of acc dir)"
proof (induction repos arbitrary: acc)
  case Nil
  then show ?case by (simp add: last_remote_def)
next
  case (Cons r rs)
  show ?case
    by (simp add: Cons.IH last_remote_def update_conv' map_add_def split: option.splits)
qed

lemma map_of_repoDict: "map_of (repoDict_of repos) = last_remote repos"
  by (rule ext) (simp add: repoDict_of_def map_of_foldl_update split: option.splits)

lemma distinct_foldl_update:
  "distinct (map fst acc) \<Longrightarrow>
   distinct (map fst (foldl (\<lambda>d repo. AList.update (Directory repo) (Remote repo) d) acc repos))"
  by (induction repos arbitrary: acc) (simp_all add: distinct_update)

lemma distinct_repoDict: "distinct (map fst (repoDict_of repos))"
  by (simp add: repoDict_of_def distinct_foldl_update)

lemma Directory_entries_of: "map Directory (entries_of d) = map fst d"
  by (induction d) (auto simp: entries_of_def)

lemma set_entries_of:
  "set (entries_of d) = {\<lparr>Directory = k, Remote = v\<rparr> |k v. (k, v) \<in> set d}"
  by (auto simp: entries_of_def image_iff)

lemma distinct_map_sort_key: "distinct (map f (sort_key f xs)) = distinct (map f xs)"
proof -
  have "mset (map f (sort_key f xs)) = mset (map f xs)" by simp
  then show ?thesis by (metis mset_eq_imp_distinct_iff)
qed

lemma strict_sorted_merge: "sorted_wrt (<) (map Directory (merge_repos repos))"
proof -
  have "distinct (map Directory (merge_repos repos))"
    unfolding merge_repos_def
    by (simp add: distinct_map_sort_key Directory_entries_of distinct_repoDict)
  moreover have "sorted (map Directory (merge_repos repos))"
    by (simp add: merge_repos_def)
  ultimately show ?thesis by (simp add: strict_sorted_iff)
qed

lemma in_merge_repos:
  "e \<in> set (merge_repos repos) \<longleftrightarrow> last_remote repos (Directory e) = Some (Remote e)"
proof -
  have "(k, v) \<in> set (repoDict_of repos) \<longleftrightarrow> last_remote repos k = Some v" for k v
    using distinct_repoDict[of repos] map_of_repoDict[of repos]
    by (metis map_of_eq_Some_iff)
  then show ?thesis
    by (cases e) (simp add: merge_repos_def set_entries_of)
qed

text \<open>A list that is strictly ascending by directory is determined by its set of entries.\<close>

lemma strict_sorted_unique:
  fixes xs ys :: "RepoConfig list"
  assumes "sorted_wrt (<) (map Directory xs)" "sorted_wrt (<) (map Directory ys)"
    and "set xs = set ys"
  shows "xs = ys"
proof -
  have d: "distinct (map Directory xs)" "distinct (map Directory ys)"
    and s: "sorted (map Directory xs)" "sorted (map Directory ys)"
    using assms(1,2) by (simp_all add: strict_sorted_iff)
  have "set (map Directory xs) = set (map Directory ys)" using assms(3) by simp
  with d s have eq: "map Directory xs = map Directory ys"
    by (rule_tac sorted_distinct_set_unique)
  have "inj_on Directory (set xs \<union> set ys)"
    using d(1) assms(3) by (simp add: distinct_map)
  with eq show ?thesis by (simp add: inj_on_map_eq_map)
qed

lemma last_remote_append:
  "last_remote (xs @ ys) d =
     (case last_remote ys d of Some v \<Rightarrow> Some v | None \<Rightarrow> last_remote xs d)"
  by (simp add: last_remote_def map_add_def split: option.splits)

lemma last_remote_None: "last_remote xs d = None \<longleftrightarrow> d \<notin> Directory ` set xs"
  by (simp add: last_remote_def map_of_eq_None_iff image_image)

lemma last_remote_distinct:
  assumes "distinct (map Directory xs)"
  shows "last_remote xs (Directory e) = Some (Remote e) \<longleftrightarrow> e \<in> set xs"
proof -
  let ?al = "rev (map (\<lambda>r. (Directory r, Remote r)) xs)"
  from assms have "distinct (map fst ?al)"
    by (simp add: rev_map[symmetric] comp_def)
  then have "last_remote xs (Directory e) = Some (Remote e)
      \<longleftrightarrow> (Directory e, Remote e) \<in> set ?al"
    unfolding last_remote_def by (rule map_of_eq_Some_iff)
  also have "\<dots> \<longleftrightarrow> e \<in> set xs"
  proof
    assume "(Directory e, Remote e) \<in> set ?al"
    then obtain r where r: "r \<in> set xs" "Directory r = Directory e" "Remote r = Remote e"
      by auto
    have "r = e" by (rule RepoConfig.equality) (simp_all add: r)
    with r(1) show "e \<in> set xs" by simp
  next
    assume "e \<in> set xs"
    then show "(Directory e, Remote e) \<in> set ?al" by (force simp: image_iff)
  qed
  finally show ?thesis .
qed

text \<open>
  The order in which the map is ranged over and the choice of sorting algorithm do not
  matter: whatever order \<open>ys\<close> the entries are appended in, every arrangement \<open>zs\<close> of
  them that is ascending by directory is the list the model computes.
\<close>

lemma range_order_irrelevant:
  assumes "mset ys = mset (entries_of (repoDict_of repos))"
    and "sorted (map Directory zs)" and "mset zs = mset ys"
  shows "zs = merge_repos repos"
proof (rule strict_sorted_unique)
  have "mset (map Directory zs) = mset (map Directory (merge_repos repos))"
    using assms(1,3) by (simp add: merge_repos_def)
  then have "distinct (map Directory zs)"
    using strict_sorted_merge[of repos] by (metis mset_eq_imp_distinct_iff strict_sorted_iff)
  with assms(2) show "sorted_wrt (<) (map Directory zs)" by (simp add: strict_sorted_iff)
  show "sorted_wrt (<) (map Directory (merge_repos repos))" by (rule strict_sorted_merge)
  have "set zs = set (entries_of (repoDict_of repos))" using assms(1,3) by (metis mset_eq_setD)
  then show "set zs = set (merge_repos repos)" by (simp add: merge_repos_def)
qed

text \<open>
  C1. The list that \<open>update\<close> merges is the loaded manifest followed by the discovered
  entries. In the merged manifest the directories are strictly ascending (so each occurs
  once), they are exactly the directories of the two inputs, every entry carries the
  remote of the last input entry for its directory, and for a directory that was
  discovered this is the discovered remote.
\<close>

theorem merge_once_last_sorted:
  "sorted_wrt (<) (map Directory (merge_repos (pre @ disc))) \<and>
   distinct (map Directory (merge_repos (pre @ disc))) \<and>
   set (map Directory (merge_repos (pre @ disc))) = Directory ` set (pre @ disc) \<and>
   (\<forall>e \<in> set (merge_repos (pre @ disc)).
       last_remote (pre @ disc) (Directory e) = Some (Remote e) \<and>
       (Directory e \<in> Directory ` set disc \<longrightarrow>
          last_remote disc (Directory e) = Some (Remote e)))"
proof (intro conjI ballI impI)
  let ?res = "merge_repos (pre @ disc)"
  show s: "sorted_wrt (<) (map Directory ?res)" by (rule strict_sorted_merge)
  then show "distinct (map Directory ?res)" by (simp add: strict_sorted_iff)
  show "set (map Directory ?res) = Directory ` set (pre @ disc)"
  proof -
    have "set (map Directory ?res)
        = set (map Directory (entries_of (repoDict_of (pre @ disc))))"
      by (simp add: merge_repos_def)
    also have "\<dots> = fst ` set (repoDict_of (pre @ disc))"
      by (simp only: Directory_entries_of set_map)
    also have "\<dots> = dom (last_remote (pre @ disc))"
      by (simp add: dom_map_of_conv_image_fst flip: map_of_repoDict)
    also have "\<dots> = Directory ` set (pre @ disc)"
      using last_remote_None[of "pre @ disc"] by (auto simp: dom_def)
    finally show ?thesis .
  qed
  fix e assume "e \<in> set ?res"
  then show l: "last_remote (pre @ disc) (Directory e) = Some (Remote e)"
    by (simp add: in_merge_repos)
  assume "Directory e \<in> Directory ` set disc"
  then have "last_remote disc (Directory e) \<noteq> None" by (simp add: last_remote_None)
  with l show "last_remote disc (Directory e) = Some (Remote e)"
    by (auto simp: last_remote_append split: option.splits)
qed

theorem merge_once_last_sorted_witness:
  "merge_repos (manifest_old @ manifest_found) =
     [\<lparr>Directory = ''/r/a'', Remote = ''u0''\<rparr>, \<lparr>Directory = ''/r/b'', Remote = ''u2''\<rparr>] \<and>
   ''/r/b'' \<in> Directory ` set manifest_found \<and>
   last_remote manifest_found ''/r/b'' = Some ''u2'' \<and>
   last_remote (manifest_old @ manifest_found) ''/r/a'' = Some ''u0''"
  using merge_once_last_sorted[of manifest_old manifest_found]
  by (simp add: manifest_old_def manifest_found_def merge_repos_def repoDict_of_def
      entries_of_def last_remote_def)

text \<open>
  C8. A manifest that is sorted by directory and has no directory twice is a fixed point
  of merging it with itself and sorting.
\<close>

theorem merge_self_idempotent:
  assumes "sorted (map Directory m)" and "distinct (map Directory m)"
  shows "merge_repos (m @ m) = m"
proof (rule strict_sorted_unique)
  show "sorted_wrt (<) (map Directory (merge_repos (m @ m)))" by (rule strict_sorted_merge)
  show "sorted_wrt (<) (map Directory m)" using assms by (simp add: strict_sorted_iff)
  have "last_remote (m @ m) k = last_remote m k" for k
    by (simp add: last_remote_append split: option.splits)
  then show "set (merge_repos (m @ m)) = set m"
    by (auto simp: in_merge_repos last_remote_distinct[OF assms(2)])
qed

theorem merge_self_idempotent_witness:
  "sorted (map Directory (rev manifest_old)) \<and> distinct (map Directory (rev manifest_old)) \<and>
   merge_repos (rev manifest_old @ rev manifest_old) = rev manifest_old"
  using merge_self_idempotent[of "rev manifest_old"] by (simp add: manifest_old_def)


section \<open>What the status template accepts\<close>

lemma set_Lit: "set (rx_rests t (Lit w) rest) = {r. rest = w @ r}"
  by (auto simp: prefix_def)

lemma set_Digit: "set (rx_rests t Digit rest) = {r. \<exists>c. is_digit c \<and> rest = c # r}"
  by (auto split: list.splits)

lemma set_plus_Digit:
  "set (plus_iter (rx_rests t Digit) n rest) =
     {r. \<exists>ds. ds \<noteq> [] \<and> list_all is_digit ds \<and> rest = ds @ r \<and> length ds \<le> Suc n}"
proof (induction n arbitrary: rest)
  case 0
  have "(\<exists>ds. ds \<noteq> [] \<and> list_all is_digit ds \<and> rest = ds @ r \<and> length ds \<le> Suc 0)
      \<longleftrightarrow> (\<exists>c. is_digit c \<and> rest = c # r)" for r
  proof
    assume "\<exists>ds. ds \<noteq> [] \<and> list_all is_digit ds \<and> rest = ds @ r \<and> length ds \<le> Suc 0"
    then obtain ds where ds: "ds \<noteq> []" "list_all is_digit ds" "rest = ds @ r" "length ds \<le> Suc 0"
      by blast
    then obtain c where "ds = [c]" by (cases ds) auto
    with ds show "\<exists>c. is_digit c \<and> rest = c # r" by simp
  next
    assume "\<exists>c. is_digit c \<and> rest = c # r"
    then obtain c where "is_digit c" "rest = c # r" by blast
    then have "[c] \<noteq> [] \<and> list_all is_digit [c] \<and> rest = [c] @ r \<and> length [c] \<le> Suc 0"
      by simp
    then show "\<exists>ds. ds \<noteq> [] \<and> list_all is_digit ds \<and> rest = ds @ r \<and> length ds \<le> Suc 0"
      by blast
  qed
  then show ?case by (simp only: plus_iter.simps set_Digit)
next
  case (Suc n)
  show ?case
  proof (cases rest)
    case Nil
    then show ?thesis by simp
  next
    case (Cons c cs)
    show ?thesis
    proof (cases "is_digit c")
      case False
      with Cons show ?thesis by (auto simp: Cons_eq_append_conv)
    next
      case True
      have "set (plus_iter (rx_rests t Digit) (Suc n) rest)
          = insert cs (set (plus_iter (rx_rests t Digit) n cs))"
        using Cons True by simp
      also have "\<dots> = {r. \<exists>ds. ds \<noteq> [] \<and> list_all is_digit ds \<and> rest = ds @ r
            \<and> length ds \<le> Suc (Suc n)}" (is "_ = ?R")
      proof (rule set_eqI)
        fix r
        show "r \<in> insert cs (set (plus_iter (rx_rests t Digit) n cs)) \<longleftrightarrow> r \<in> ?R"
        proof
          assume "r \<in> insert cs (set (plus_iter (rx_rests t Digit) n cs))"
          then consider "r = cs"
            | ds where "ds \<noteq> []" "list_all is_digit ds" "cs = ds @ r" "length ds \<le> Suc n"
            by (auto simp: Suc.IH)
          then show "r \<in> ?R"
          proof cases
            case 1
            then have "[c] \<noteq> [] \<and> list_all is_digit [c] \<and> rest = [c] @ r
                \<and> length [c] \<le> Suc (Suc n)"
              using Cons True by simp
            then show ?thesis by blast
          next
            case 2
            then have "c # ds \<noteq> [] \<and> list_all is_digit (c # ds) \<and> rest = (c # ds) @ r
                \<and> length (c # ds) \<le> Suc (Suc n)"
              using Cons True by simp
            then show ?thesis by blast
          qed
        next
          assume "r \<in> ?R"
          then obtain ds where ds: "ds \<noteq> []" "list_all is_digit ds" "rest = ds @ r"
            "length ds \<le> Suc (Suc n)" by blast
          then obtain ds' where ds': "ds = c # ds'" using Cons by (cases ds) auto
          show "r \<in> insert cs (set (plus_iter (rx_rests t Digit) n cs))"
          proof (cases "ds' = []")
            case True
            with ds ds' Cons show ?thesis by simp
          next
            case False
            with ds ds' Cons have "ds' \<noteq> [] \<and> list_all is_digit ds' \<and> cs = ds' @ r
                \<and> length ds' \<le> Suc n" by simp
            then show ?thesis unfolding Suc.IH by blast
          qed
        qed
      qed
      finally show ?thesis .
    qed
  qed
qed

lemma set_Plus_Digit:
  "set (rx_rests t (Plus Digit) rest) =
     {r. \<exists>ds. ds \<noteq> [] \<and> list_all is_digit ds \<and> rest = ds @ r}"
proof -
  have "rest = ds @ r \<Longrightarrow> length ds \<le> Suc (length rest)" for ds r :: string by simp
  then show ?thesis by (auto simp: set_plus_Digit)
qed

lemma set_Cat:
  "set (rx_rests t (Cat a b) rest) = (\<Union>m \<in> set (rx_rests t a rest). set (rx_rests t b m))"
  by simp

lemma set_Alt: "set (rx_rests t (Alt a b) rest) = set (rx_rests t a rest) \<union> set (rx_rests t b rest)"
  by simp

lemma set_Opt: "set (rx_rests t (Opt a) rest) = insert rest (set (rx_rests t a rest))"
  by simp

lemma set_EndText: "set (rx_rests t EndText rest) = {r. r = [] \<and> rest = []}"
  by auto

lemma set_BeginText: "set (rx_rests t BeginText rest) = {r. r = rest \<and> length rest = length t}"
  by auto

lemma rx_Match_iff:
  "rx_Match r t \<longleftrightarrow> (\<exists>rest. suffix rest t \<and> set (rx_rests t r rest) \<noteq> {})"
  by (auto simp: rx_Match_def list_ex_iff)

lemma set_behind:
  "set (rx_rests t re_behind rest)
   = {r. \<exists>ds pl. ds \<noteq> [] \<and> list_all is_digit ds \<and> rest = behind_line ds pl @ r}"
  (is "?L = ?R")
proof (rule set_eqI)
  fix r
  have "r \<in> ?L \<longleftrightarrow> (\<exists>m1 m2 m3 m4. rest = ''Your branch is behind 'origin/master' by '' @ m1 \<and>
      (\<exists>ds. ds \<noteq> [] \<and> list_all is_digit ds \<and> m1 = ds @ m2) \<and> m2 = '' commit'' @ m3 \<and>
      (m4 = m3 \<or> m3 = ''s'' @ m4) \<and> m4 = '', and can be fast-forwarded.'' @ r)"
    unfolding re_behind_def set_Cat set_Lit set_Plus_Digit set_Opt by blast
  also have "\<dots> \<longleftrightarrow> (\<exists>ds pl. ds \<noteq> [] \<and> list_all is_digit ds \<and> rest = behind_line ds pl @ r)"
  proof
    assume "\<exists>m1 m2 m3 m4. rest = ''Your branch is behind 'origin/master' by '' @ m1 \<and>
      (\<exists>ds. ds \<noteq> [] \<and> list_all is_digit ds \<and> m1 = ds @ m2) \<and> m2 = '' commit'' @ m3 \<and>
      (m4 = m3 \<or> m3 = ''s'' @ m4) \<and> m4 = '', and can be fast-forwarded.'' @ r"
    then obtain ds m3 m4 where ds: "ds \<noteq> []" "list_all is_digit ds"
      and rest: "rest = ''Your branch is behind 'origin/master' by '' @ ds @ '' commit'' @ m3"
      and m: "m4 = m3 \<or> m3 = ''s'' @ m4" "m4 = '', and can be fast-forwarded.'' @ r"
      by auto
    from m(1) have "rest = behind_line ds False @ r \<or> rest = behind_line ds True @ r"
      using rest m(2) by (auto simp: behind_line_def)
    with ds show "\<exists>ds pl. ds \<noteq> [] \<and> list_all is_digit ds \<and> rest = behind_line ds pl @ r"
      by blast
  next
    assume "\<exists>ds pl. ds \<noteq> [] \<and> list_all is_digit ds \<and> rest = behind_line ds pl @ r"
    then obtain ds pl where ds: "ds \<noteq> []" "list_all is_digit ds"
      and rest: "rest = behind_line ds pl @ r" by blast
    let ?m4 = "'', and can be fast-forwarded.'' @ r"
    let ?m3 = "(if pl then ''s'' else []) @ ?m4"
    have "rest = ''Your branch is behind 'origin/master' by '' @ (ds @ '' commit'' @ ?m3) \<and>
      (\<exists>ds'. ds' \<noteq> [] \<and> list_all is_digit ds' \<and> ds @ '' commit'' @ ?m3 = ds' @ ('' commit'' @ ?m3)) \<and>
       '' commit'' @ ?m3 = '' commit'' @ ?m3 \<and>
      (?m4 = ?m3 \<or> ?m3 = ''s'' @ ?m4) \<and> ?m4 = '', and can be fast-forwarded.'' @ r"
      using ds rest by (auto simp: behind_line_def)
    then show "\<exists>m1 m2 m3 m4. rest = ''Your branch is behind 'origin/master' by '' @ m1 \<and>
      (\<exists>ds. ds \<noteq> [] \<and> list_all is_digit ds \<and> m1 = ds @ m2) \<and> m2 = '' commit'' @ m3 \<and>
      (m4 = m3 \<or> m3 = ''s'' @ m4) \<and> m4 = '', and can be fast-forwarded.'' @ r"
      by blast
  qed
  finally show "r \<in> ?L \<longleftrightarrow> r \<in> ?R" by simp
qed

lemma set_tracking:
  "set (rx_rests t (Alt re_behind re_uptodate) rest) = {r. \<exists>line. line_ok line \<and> rest = line @ r}"
  unfolding set_Alt set_behind re_uptodate_def set_Lit line_ok_def uptodate_line_def
  by blast

lemma set_hint:
  "set (rx_rests t (Opt (Lit (hint_text @ nl))) rest)
     = {r. \<exists>hint. rest = (if hint then hint_text @ nl else []) @ r}"
  unfolding set_Opt set_Lit by auto

lemma set_template_body:
  "set (rx_rests t (Cat (Lit (''On branch master'' @ nl))
    (Cat (Alt re_behind re_uptodate)
    (Cat (Lit nl)
    (Cat (Opt (Lit (hint_text @ nl)))
    (Cat (Lit (nl @ ''nothing to commit, working tree clean'' @ nl)) EndText))))) rest)
   = {r. r = [] \<and> (\<exists>line hint. line_ok line \<and> rest = clean_status line hint)}"
  (is "?L = ?R")
proof (rule set_eqI)
  fix r
  have "r \<in> ?L \<longleftrightarrow> (\<exists>m1 m2 m3 m4 m5. rest = (''On branch master'' @ nl) @ m1 \<and>
      (\<exists>line. line_ok line \<and> m1 = line @ m2) \<and> m2 = nl @ m3 \<and>
      (\<exists>hint. m3 = (if hint then hint_text @ nl else []) @ m4) \<and>
      m4 = (nl @ ''nothing to commit, working tree clean'' @ nl) @ m5 \<and> r = [] \<and> m5 = [])"
    unfolding set_Cat[of t "Lit _"] set_Cat[of t "Alt _ _"] set_Cat[of t "Opt _"]
      set_tracking set_hint set_Lit set_EndText
    by blast
  also have "\<dots> \<longleftrightarrow> r = [] \<and> (\<exists>line hint. line_ok line \<and> rest = (''On branch master'' @ nl) @ line @ nl @
     (if hint then hint_text @ nl else []) @ (nl @ ''nothing to commit, working tree clean'' @ nl) @ [])"
    by blast
  also have "\<dots> \<longleftrightarrow> r \<in> ?R"
    by (simp add: clean_status_def)
  finally show "r \<in> ?L \<longleftrightarrow> r \<in> ?R" .
qed

lemma gate_iff:
  "rx_Match gitStatusTemplateRe s \<longleftrightarrow> (\<exists>line hint. line_ok line \<and> s = clean_status line hint)"
proof -
  have "suffix rest s \<and> length rest = length s \<longleftrightarrow> rest = s" for rest
    by (auto simp: suffix_def)
  then have b: "(\<exists>rest. suffix rest s \<and> length rest = length s \<and> P rest) \<longleftrightarrow> P s" for P
    by metis
  have "rx_Match gitStatusTemplateRe s \<longleftrightarrow>
     (\<exists>rest. suffix rest s \<and> length rest = length s \<and>
        (\<exists>line hint. line_ok line \<and> rest = clean_status line hint))"
    unfolding rx_Match_iff gitStatusTemplateRe_def set_Cat[of s BeginText] set_BeginText
      set_template_body
    by auto
  then show ?thesis unfolding b .
qed


section \<open>The fast-forward gate\<close>

lemma trace_emit: "trace (emit e s) = trace s @ [e]"
  and world_emit: "world (emit e s) = world s"
  and config_emit: "config (emit e s) = config s"
  by (simp_all add: emit_def)

lemma pull_step_reject:
  assumes "run sys (GitStatus (Directory repo)) (world s) = (Exited out, w1)"
    and "\<not> rx_Match gitStatusTemplateRe out"
  shows "pull_step sys repo s =
     s\<lparr>world := w1, trace := trace s @ [Exec (GitStatus (Directory repo)),
        Log Warning (UpgradeSkipped (Directory repo))]\<rparr>"
  using assms by (simp add: pull_step_def gitPull_def exec_def emit_def)

lemma pull_step_accept:
  assumes "run sys (GitStatus (Directory repo)) (world s) = (Exited out, w1)"
    and "rx_Match gitStatusTemplateRe out"
    and "run sys (GitPull (Directory repo)) w1 = (r, w2)"
  shows "pull_step sys repo s =
     s\<lparr>world := w2, trace := trace s @ [Exec (GitStatus (Directory repo)),
        Exec (GitPull (Directory repo)),
        (case snd (collect r) of
           None \<Rightarrow> Log Info (UpgradeFinished (Directory repo))
         | Some e \<Rightarrow> Log Error (UpgradeFailed (Directory repo) e (fst (collect r))))]\<rparr>"
  using assms by (cases r) (simp_all add: pull_step_def gitPull_def exec_def emit_def)

lemma line_ok_match: "line_ok line \<Longrightarrow> rx_Match gitStatusTemplateRe (clean_status line hint)"
  unfolding gate_iff by blast

lemma clean_status_suffix: "suffix clean_line (clean_status line hint)"
  by (simp add: clean_status_def clean_line_def suffix_def)

lemma match_suffix: "rx_Match gitStatusTemplateRe out \<Longrightarrow> suffix clean_line out"
  unfolding gate_iff using clean_status_suffix by blast

lemma scenario_rejected: "\<not> rx_Match gitStatusTemplateRe scenario_status"
  by (auto simp: gate_iff clean_status_def scenario_status_def line_ok_def uptodate_line_def
      behind_line_def nl_def hint_text_def)

lemma takeWhile_upto: "c \<notin> set xs \<Longrightarrow> takeWhile (\<lambda>x. x \<noteq> c) (xs @ c # ys) = xs"
  by (induction xs) auto

lemma branch_name:
  assumes "rx_Match gitStatusTemplateRe (''On branch '' @ b @ nl @ rest)"
    and "CHR 0x0A \<notin> set b"
  shows "b = ''master''"
proof -
  from assms(1) obtain line hint where
    "''On branch '' @ b @ nl @ rest = clean_status line hint"
    unfolding gate_iff by blast
  then have "b @ CHR 0x0A # rest = ''master'' @ CHR 0x0A # (line @ nl @ (if hint then hint_text @ nl else []) @
     nl @ ''nothing to commit, working tree clean'' @ nl)"
    by (simp add: clean_status_def nl_def)
  then have "takeWhile (\<lambda>c. c \<noteq> CHR 0x0A) (b @ CHR 0x0A # rest)
      = takeWhile (\<lambda>c. c \<noteq> CHR 0x0A) (''master'' @ CHR 0x0A # (line @ nl @ (if hint then hint_text @ nl else []) @
     nl @ ''nothing to commit, working tree clean'' @ nl))"
    by (rule arg_cong)
  moreover have "takeWhile (\<lambda>c. c \<noteq> CHR 0x0A) (b @ CHR 0x0A # rest) = b"
    using assms(2) by (rule takeWhile_upto)
  ultimately show ?thesis by simp
qed

lemma remote_name:
  assumes "rx_Match gitStatusTemplateRe
      (''On branch master'' @ nl @ intro @ [CHR 0x27] @ r @ [CHR 0x27] @ rest)"
    and "intro = ''Your branch is up-to-date with '' \<or> intro = ''Your branch is behind ''"
    and "CHR 0x27 \<notin> set r"
  shows "r = ''origin/master''"
proof -
  from assms(1) obtain line hint where ok: "line_ok line" and
    "''On branch master'' @ nl @ intro @ [CHR 0x27] @ r @ [CHR 0x27] @ rest = clean_status line hint"
    unfolding gate_iff by blast
  then have eq: "intro @ CHR 0x27 # r @ CHR 0x27 # rest = line @ nl @ (if hint then hint_text @ nl else []) @
     nl @ ''nothing to commit, working tree clean'' @ nl"
    by (simp add: clean_status_def)
  from ok obtain tl where l: "line = (''Your branch is up-to-date with 'origin/master'' @ [CHR 0x27]) @ tl
      \<or> line = (''Your branch is behind 'origin/master'' @ [CHR 0x27]) @ tl"
    by (auto simp: line_ok_def uptodate_line_def behind_line_def)
  with eq assms(2) obtain tl' where "r @ CHR 0x27 # rest = ''origin/master'' @ CHR 0x27 # tl'"
    by auto
  then have "takeWhile (\<lambda>c. c \<noteq> CHR 0x27) (r @ CHR 0x27 # rest)
     = takeWhile (\<lambda>c. c \<noteq> CHR 0x27) (''origin/master'' @ CHR 0x27 # tl')"
    by (rule arg_cong)
  moreover have "takeWhile (\<lambda>c. c \<noteq> CHR 0x27) (r @ CHR 0x27 # rest) = r"
    using assms(3) by (rule takeWhile_upto)
  ultimately show ?thesis by simp
qed

lemma match_prefix:
  assumes "rx_Match gitStatusTemplateRe out"
  shows "prefix (''On branch master'' @ nl @ (''Your branch is up-to-date with 'origin/master'' @ [CHR 0x27])) out
       \<or> prefix (''On branch master'' @ nl @ (''Your branch is behind 'origin/master'' @ [CHR 0x27])) out"
proof -
  from assms obtain line hint where ok: "line_ok line" and out: "out = clean_status line hint"
    unfolding gate_iff by blast
  from ok obtain tl where l: "line = (''Your branch is up-to-date with 'origin/master'' @ [CHR 0x27]) @ tl
      \<or> line = (''Your branch is behind 'origin/master'' @ [CHR 0x27]) @ tl"
    by (auto simp: line_ok_def uptodate_line_def behind_line_def)
  then show ?thesis unfolding out clean_status_def prefix_def by auto
qed


text \<open>
  C2. When \<open>git status\<close> prints the text of a clean working tree on master with a
  tracking line that is up to date or behind and fast-forwardable, the template matches
  and the pull step runs \<open>git pull\<close> right after \<open>git status\<close>. When the text does not
  end with the line "nothing to commit, working tree clean" (any uncommitted change), the
  template does not match: the pull step runs \<open>git status\<close> only and logs the warning
  "Upgrade skipped", no error.
\<close>

theorem gate_clean_passes_dirty_skipped:
  "(line_ok line \<and>
      run sys (GitStatus (Directory repo)) (world s) = (Exited (clean_status line hint), w1) \<longrightarrow>
      rx_Match gitStatusTemplateRe (clean_status line hint) \<and>
      (\<exists>l. trace (pull_step sys repo s) =
         trace s @ [Exec (GitStatus (Directory repo)), Exec (GitPull (Directory repo)), l])) \<and>
   (\<not> suffix clean_line out \<and>
      run sys (GitStatus (Directory repo)) (world s) = (Exited out, w1) \<longrightarrow>
      \<not> rx_Match gitStatusTemplateRe out \<and>
      pull_step sys repo s =
        s\<lparr>world := w1, trace := trace s @ [Exec (GitStatus (Directory repo)),
          Log Warning (UpgradeSkipped (Directory repo))]\<rparr>)"
proof (intro conjI impI)
  assume a: "line_ok line \<and>
      run sys (GitStatus (Directory repo)) (world s) = (Exited (clean_status line hint), w1)"
  then show m: "rx_Match gitStatusTemplateRe (clean_status line hint)"
    by (simp add: line_ok_match)
  obtain r w2 where r: "run sys (GitPull (Directory repo)) w1 = (r, w2)"
    by (cases "run sys (GitPull (Directory repo)) w1")
  show "\<exists>l. trace (pull_step sys repo s) =
         trace s @ [Exec (GitStatus (Directory repo)), Exec (GitPull (Directory repo)), l]"
    using pull_step_accept[OF conjunct2[OF a] m r] by simp
next
  assume a: "\<not> suffix clean_line out \<and>
      run sys (GitStatus (Directory repo)) (world s) = (Exited out, w1)"
  then show m: "\<not> rx_Match gitStatusTemplateRe out" using match_suffix by blast
  show "pull_step sys repo s =
        s\<lparr>world := w1, trace := trace s @ [Exec (GitStatus (Directory repo)),
          Log Warning (UpgradeSkipped (Directory repo))]\<rparr>"
    using pull_step_reject[OF conjunct2[OF a] m] .
qed

lemma demo_simps:
  "run demo_sys = demo_run"
  "filepath_Join demo_sys a b = a @ ''/'' @ b"
  "os_Stat demo_sys p w = (if p = ''/r/c/.git'' then Some NotExist else None)"
  by (simp_all add: demo_sys_def)

lemma dirty_not_clean: "\<not> suffix clean_line dirty_status"
  by (simp add: suffix_to_prefix dirty_status_def clean_line_def nl_def uptodate_line_def)

theorem gate_clean_passes_dirty_skipped_witness:
  "line_ok uptodate_line \<and>
   run demo_sys (GitStatus ''/r/a'') () = (Exited (clean_status uptodate_line False), ()) \<and>
   rx_Match gitStatusTemplateRe (clean_status uptodate_line False) \<and>
   trace (pull_step demo_sys \<lparr>Directory = ''/r/a'', Remote = ''u0''\<rparr> demo_state) =
     [Exec (GitStatus ''/r/a''), Exec (GitPull ''/r/a''), Log Info (UpgradeFinished ''/r/a'')] \<and>
   \<not> suffix clean_line dirty_status \<and>
   run demo_sys (GitStatus ''/r/b'') () = (Exited dirty_status, ()) \<and>
   \<not> rx_Match gitStatusTemplateRe dirty_status \<and>
   trace (pull_step demo_sys \<lparr>Directory = ''/r/b'', Remote = ''u2''\<rparr> demo_state) =
     [Exec (GitStatus ''/r/b''), Log Warning (UpgradeSkipped ''/r/b'')]"
proof -
  have ok: "line_ok uptodate_line" by (simp add: line_ok_def)
  have ra: "run demo_sys (GitStatus ''/r/a'') () = (Exited (clean_status uptodate_line False), ())"
    and rb: "run demo_sys (GitStatus ''/r/b'') () = (Exited dirty_status, ())"
    by (simp_all add: demo_simps demo_run_def)
  note a = gate_clean_passes_dirty_skipped[of uptodate_line demo_sys
      "\<lparr>Directory = ''/r/a'', Remote = ''u0''\<rparr>" demo_state False "()" dirty_status]
  note b = gate_clean_passes_dirty_skipped[of uptodate_line demo_sys
      "\<lparr>Directory = ''/r/b'', Remote = ''u2''\<rparr>" demo_state False "()" dirty_status]
  from a ok ra have m: "rx_Match gitStatusTemplateRe (clean_status uptodate_line False)"
    by (simp add: demo_state_def)
  from b rb dirty_not_clean have n: "\<not> rx_Match gitStatusTemplateRe dirty_status"
    and t: "trace (pull_step demo_sys \<lparr>Directory = ''/r/b'', Remote = ''u2''\<rparr> demo_state) =
     [Exec (GitStatus ''/r/b''), Log Warning (UpgradeSkipped ''/r/b'')]"
    by (simp_all add: demo_state_def)
  have "trace (pull_step demo_sys \<lparr>Directory = ''/r/a'', Remote = ''u0''\<rparr> demo_state) =
     [Exec (GitStatus ''/r/a''), Exec (GitPull ''/r/a''), Log Info (UpgradeFinished ''/r/a'')]"
    using m by (simp add: pull_step_def gitPull_def exec_def emit_def demo_simps demo_run_def
        demo_state_def)
  with ok ra rb m n t dirty_not_clean show ?thesis by simp
qed

text \<open>
  C3, as the specification states it, fails: the status text of its scenario has no empty
  line between the tracking line and the clean line, the template demands one. With that
  text the pull step logs the warning and runs no pull.
\<close>

theorem scenario_text_skipped:
  "run demo_sys (GitStatus ''/r/e'') (world demo_state) = (Exited scenario_status, ()) \<and>
   \<not> rx_Match gitStatusTemplateRe scenario_status \<and>
   trace (pull_step demo_sys \<lparr>Directory = ''/r/e'', Remote = ''u5''\<rparr> demo_state) =
     [Exec (GitStatus ''/r/e''), Log Warning (UpgradeSkipped ''/r/e'')]"
proof -
  have r: "run demo_sys (GitStatus (Directory \<lparr>Directory = ''/r/e'', Remote = ''u5''\<rparr>))
      (world demo_state) = (Exited scenario_status, ())"
    by (simp add: demo_simps demo_run_def)
  show ?thesis
    using r scenario_rejected pull_step_reject[OF r scenario_rejected]
    by (simp add: demo_state_def)
qed

text \<open>
  C3, amended. With the empty line that \<open>git status\<close> prints before the clean line, the
  template matches and \<open>git pull\<close> is run; when that process exits with status 0 the
  repository is logged as "Upgrade finished".
\<close>

theorem status_with_empty_line_pulled:
  assumes "run sys (GitStatus (Directory repo)) (world s) =
      (Exited (''On branch master'' @ nl @ ''Your branch is up-to-date with 'origin/master'.'' @
         nl @ nl @ ''nothing to commit, working tree clean'' @ nl), w1)"
    and "run sys (GitPull (Directory repo)) w1 = (Exited out, w2)"
  shows "rx_Match gitStatusTemplateRe
      (''On branch master'' @ nl @ ''Your branch is up-to-date with 'origin/master'.'' @
         nl @ nl @ ''nothing to commit, working tree clean'' @ nl) \<and>
     pull_step sys repo s =
       s\<lparr>world := w2, trace := trace s @ [Exec (GitStatus (Directory repo)),
          Exec (GitPull (Directory repo)), Log Info (UpgradeFinished (Directory repo))]\<rparr>"
proof -
  have eq: "''On branch master'' @ nl @ ''Your branch is up-to-date with 'origin/master'.'' @
         nl @ nl @ ''nothing to commit, working tree clean'' @ nl = clean_status uptodate_line False"
    by (simp add: clean_status_def uptodate_line_def)
  have m: "rx_Match gitStatusTemplateRe (clean_status uptodate_line False)"
    by (simp add: line_ok_match line_ok_def)
  show ?thesis
    using pull_step_accept[OF assms(1)[unfolded eq] m assms(2)] m unfolding eq by simp
qed

theorem status_with_empty_line_pulled_witness:
  "run demo_sys (GitStatus ''/r/a'') (world demo_state) =
      (Exited (''On branch master'' @ nl @ ''Your branch is up-to-date with 'origin/master'.'' @
         nl @ nl @ ''nothing to commit, working tree clean'' @ nl), ()) \<and>
   run demo_sys (GitPull ''/r/a'') () = (Exited [], ()) \<and>
   pull_step demo_sys \<lparr>Directory = ''/r/a'', Remote = ''u0''\<rparr> demo_state =
     \<lparr>world = (), config = \<lparr>Repos = []\<rparr>, trace = [Exec (GitStatus ''/r/a''),
          Exec (GitPull ''/r/a''), Log Info (UpgradeFinished ''/r/a'')]\<rparr>"
proof -
  have a: "run demo_sys (GitStatus (Directory \<lparr>Directory = ''/r/a'', Remote = ''u0''\<rparr>))
      (world demo_state) =
      (Exited (''On branch master'' @ nl @ ''Your branch is up-to-date with 'origin/master'.'' @
         nl @ nl @ ''nothing to commit, working tree clean'' @ nl), ())"
    by (simp add: demo_simps demo_run_def clean_status_def uptodate_line_def)
  have b: "run demo_sys (GitPull (Directory \<lparr>Directory = ''/r/a'', Remote = ''u0''\<rparr>)) ()
      = (Exited [], ())"
    by (simp add: demo_simps demo_run_def)
  show ?thesis
    using a b status_with_empty_line_pulled[OF a b] by (simp add: demo_state_def)
qed

text \<open>
  C10. A text the template matches starts with "On branch master" and a tracking line
  that names 'origin/master'. A text whose first line names another branch, or whose
  tracking line names another remote ref, is not matched, whatever follows; and every
  text that is not matched makes the pull step skip the repository with the warning.
\<close>

theorem gate_only_master:
  "(rx_Match gitStatusTemplateRe out \<longrightarrow>
      prefix (''On branch master'' @ nl @
        (''Your branch is up-to-date with 'origin/master'' @ [CHR 0x27])) out \<or>
      prefix (''On branch master'' @ nl @
        (''Your branch is behind 'origin/master'' @ [CHR 0x27])) out) \<and>
   (b \<noteq> ''master'' \<and> CHR 0x0A \<notin> set b \<longrightarrow>
      \<not> rx_Match gitStatusTemplateRe (''On branch '' @ b @ nl @ rest)) \<and>
   (r \<noteq> ''origin/master'' \<and> CHR 0x27 \<notin> set r \<longrightarrow>
      \<not> rx_Match gitStatusTemplateRe (''On branch master'' @ nl @
          ''Your branch is up-to-date with '' @ [CHR 0x27] @ r @ [CHR 0x27] @ rest) \<and>
      \<not> rx_Match gitStatusTemplateRe (''On branch master'' @ nl @
          ''Your branch is behind '' @ [CHR 0x27] @ r @ [CHR 0x27] @ rest)) \<and>
   (\<not> rx_Match gitStatusTemplateRe out \<and>
      run sys (GitStatus (Directory repo)) (world s) = (Exited out, w1) \<longrightarrow>
      pull_step sys repo s =
        s\<lparr>world := w1, trace := trace s @ [Exec (GitStatus (Directory repo)),
          Log Warning (UpgradeSkipped (Directory repo))]\<rparr>)"
proof (intro conjI impI)
  assume "rx_Match gitStatusTemplateRe out"
  then show "prefix (''On branch master'' @ nl @
        (''Your branch is up-to-date with 'origin/master'' @ [CHR 0x27])) out \<or>
      prefix (''On branch master'' @ nl @
        (''Your branch is behind 'origin/master'' @ [CHR 0x27])) out"
    by (rule match_prefix)
next
  assume "b \<noteq> ''master'' \<and> CHR 0x0A \<notin> set b"
  then show "\<not> rx_Match gitStatusTemplateRe (''On branch '' @ b @ nl @ rest)"
    using branch_name by blast
next
  assume a: "r \<noteq> ''origin/master'' \<and> CHR 0x27 \<notin> set r"
  show "\<not> rx_Match gitStatusTemplateRe (''On branch master'' @ nl @
          ''Your branch is up-to-date with '' @ [CHR 0x27] @ r @ [CHR 0x27] @ rest)"
    using a remote_name[of "''Your branch is up-to-date with ''" r rest] by auto
  show "\<not> rx_Match gitStatusTemplateRe (''On branch master'' @ nl @
          ''Your branch is behind '' @ [CHR 0x27] @ r @ [CHR 0x27] @ rest)"
    using a remote_name[of "''Your branch is behind ''" r rest] by auto
next
  assume "\<not> rx_Match gitStatusTemplateRe out \<and>
      run sys (GitStatus (Directory repo)) (world s) = (Exited out, w1)"
  then show "pull_step sys repo s =
        s\<lparr>world := w1, trace := trace s @ [Exec (GitStatus (Directory repo)),
          Log Warning (UpgradeSkipped (Directory repo))]\<rparr>"
    by (simp add: pull_step_reject)
qed

theorem gate_only_master_witness:
  "rx_Match gitStatusTemplateRe (clean_status uptodate_line False) \<and>
   prefix (''On branch master'' @ nl @
        (''Your branch is up-to-date with 'origin/master'' @ [CHR 0x27]))
     (clean_status uptodate_line False) \<and>
   ''develop'' \<noteq> ''master'' \<and> CHR 0x0A \<notin> set ''develop'' \<and>
   \<not> rx_Match gitStatusTemplateRe develop_status \<and>
   ''upstream/master'' \<noteq> ''origin/master'' \<and> CHR 0x27 \<notin> set ''upstream/master'' \<and>
   \<not> rx_Match gitStatusTemplateRe upstream_status \<and>
   run demo_sys (GitStatus ''/r/f'') (world demo_state) = (Exited develop_status, ()) \<and>
   trace (pull_step demo_sys \<lparr>Directory = ''/r/f'', Remote = ''u6''\<rparr> demo_state) =
     [Exec (GitStatus ''/r/f''), Log Warning (UpgradeSkipped ''/r/f'')]"
proof -
  let ?rest = "''Your branch is up-to-date with '' @ [CHR 0x27] @ ''origin/develop'' @
     [CHR 0x27] @ ''.'' @ nl @ nl @ ''nothing to commit, working tree clean'' @ nl"
  let ?rest2 = "''.'' @ nl @ nl @ ''nothing to commit, working tree clean'' @ nl"
  let ?repo = "\<lparr>Directory = ''/r/f'', Remote = ''u6''\<rparr>"
  have m: "rx_Match gitStatusTemplateRe (clean_status uptodate_line False)"
    by (simp add: line_ok_match line_ok_def)
  have p: "prefix (''On branch master'' @ nl @
        (''Your branch is up-to-date with 'origin/master'' @ [CHR 0x27]))
     (clean_status uptodate_line False)"
    by (simp add: clean_status_def uptodate_line_def nl_def)
  have d: "\<not> rx_Match gitStatusTemplateRe develop_status"
    using gate_only_master[where b = "''develop''" and rest = ?rest,
        THEN conjunct2, THEN conjunct1]
    by (simp add: develop_status_def)
  have u: "\<not> rx_Match gitStatusTemplateRe upstream_status"
    using gate_only_master[where r = "''upstream/master''" and rest = ?rest2,
        THEN conjunct2, THEN conjunct2, THEN conjunct1]
    by (simp add: upstream_status_def)
  have r: "run demo_sys (GitStatus (Directory ?repo)) (world demo_state) = (Exited develop_status, ())"
    by (simp add: demo_simps demo_run_def)
  have t: "trace (pull_step demo_sys ?repo demo_state) =
     [Exec (GitStatus ''/r/f''), Log Warning (UpgradeSkipped ''/r/f'')]"
    using gate_only_master[where out = develop_status and sys = demo_sys and repo = ?repo
        and s = demo_state and ?w1.0 = "()", THEN conjunct2, THEN conjunct2, THEN conjunct2] d r
    by (simp add: demo_state_def)
  from m p d u r t show ?thesis by simp
qed


section \<open>The reconciliation loop\<close>

lemma extends_refl: "extends P s s"
  by (simp add: extends_def)

lemma extends_trans: "extends P s s' \<Longrightarrow> extends P s' s'' \<Longrightarrow> extends P s s''"
  by (auto simp: extends_def)

lemma extends_emit: "P e \<Longrightarrow> extends P s (emit e s)"
  by (simp add: extends_def emit_def)

lemma extends_mono: "extends P s s' \<Longrightarrow> (\<And>e. P e \<Longrightarrow> Q e) \<Longrightarrow> extends Q s s'"
  by (auto simp: extends_def list_all_iff)

lemma gitClone_present:
  assumes "os_Stat sys (filepath_Join sys (Directory repo) ''.git'') (world s) = None"
  shows "gitClone sys repo s = (([], Some SkipDir), s)"
  using assms by (simp add: gitClone_def)

lemma gitClone_stat_failed:
  assumes "os_Stat sys (filepath_Join sys (Directory repo) ''.git'') (world s) = Some e"
    and "e \<noteq> NotExist"
  shows "gitClone sys repo s = (([], Some (Sys e)), s)"
  using assms by (simp add: gitClone_def)

lemma gitClone_run:
  assumes "os_Stat sys (filepath_Join sys (Directory repo) ''.git'') (world s) = Some NotExist"
    and "run sys (GitClone (Remote repo) (Directory repo)) (world s) = (r, w1)"
  shows "gitClone sys repo s =
     (collect r, s\<lparr>world := w1, trace := trace s @ [Exec (GitClone (Remote repo) (Directory repo))]\<rparr>)"
  using assms by (simp add: gitClone_def exec_def emit_def)

lemma collect_not_SkipDir: "snd (collect r) \<noteq> Some SkipDir"
  by (cases r) simp_all

lemma gitClone_trace:
  assumes "gitClone sys repo s = (res, s1)"
  shows "config s1 = config s \<and>
    (trace s1 = trace s \<or> trace s1 = trace s @ [Exec (GitClone (Remote repo) (Directory repo))])"
  using assms
  by (auto simp: gitClone_def exec_def emit_def split: option.splits if_splits prod.splits)

lemma gitFetch_run:
  assumes "run sys (GitFetch (Directory repo)) (world s) = (r, w1)"
  shows "gitFetch sys repo s =
     (collect r, s\<lparr>world := w1, trace := trace s @ [Exec (GitFetch (Directory repo))]\<rparr>)"
  using assms by (simp add: gitFetch_def exec_def emit_def)

lemma gitFetch_trace:
  assumes "gitFetch sys repo s = (res, s1)"
  shows "config s1 = config s \<and> trace s1 = trace s @ [Exec (GitFetch (Directory repo))]"
  using assms by (auto simp: gitFetch_def exec_def emit_def split: prod.splits)

lemma gitPull_trace:
  assumes "gitPull sys repo s = (res, s1)"
  shows "config s1 = config s \<and>
    (trace s1 = trace s @ [Exec (GitStatus (Directory repo))] \<or>
     trace s1 = trace s @ [Exec (GitStatus (Directory repo)), Exec (GitPull (Directory repo))])"
  using assms
  by (auto simp: gitPull_def exec_def emit_def split: prod.splits proc_result.splits if_splits)

lemma pull_step_trace:
  "config (pull_step sys repo s) = config s \<and>
   (\<exists>evs. trace (pull_step sys repo s) = trace s @ Exec (GitStatus (Directory repo)) # evs \<and>
      list_all (\<lambda>e. \<not> clone_event e \<and> stage_of e = 2) evs)"
proof -
  obtain out err s1 where g: "gitPull sys repo s = ((out, err), s1)"
    by (metis surj_pair)
  from gitPull_trace[OF g] show ?thesis
    by (auto simp: pull_step_def g emit_def split: option.splits)
qed

lemma fetch_step_failed:
  assumes "gitFetch sys repo s = ((out, Some e), s1)"
  shows "fetch_step sys repo s = emit (Log Error (FetchFailed (Directory repo) e out)) s1"
  using assms by (simp add: fetch_step_def)

lemma fetch_step_ok:
  assumes "run sys (GitFetch (Directory repo)) (world s) = (Exited out, w1)"
  shows "fetch_step sys repo s =
     pull_step sys repo (s\<lparr>world := w1, trace := trace s @
       [Exec (GitFetch (Directory repo)), Log Info (FetchFinished (Directory repo))]\<rparr>)"
  by (simp add: fetch_step_def gitFetch_run[OF assms] emit_def)

lemma fetch_step_trace:
  "config (fetch_step sys repo s) = config s \<and>
   (\<exists>evs. trace (fetch_step sys repo s) = trace s @ Exec (GitFetch (Directory repo)) # evs \<and>
      list_all (\<lambda>e. \<not> clone_event e \<and> stage_of e = 2) evs)"
proof -
  obtain out err s1 where g: "gitFetch sys repo s = ((out, err), s1)"
    by (metis surj_pair)
  note t = gitFetch_trace[OF g]
  show ?thesis
  proof (cases err)
    case (Some e)
    with t show ?thesis by (simp add: fetch_step_def g emit_def)
  next
    case None
    let ?s2 = "emit (Log Info (FetchFinished (Directory repo))) s1"
    from pull_step_trace[of sys repo ?s2] obtain evs where
      c: "config (pull_step sys repo ?s2) = config ?s2"
      and e: "trace (pull_step sys repo ?s2) = trace ?s2 @ Exec (GitStatus (Directory repo)) # evs"
      "list_all (\<lambda>e. \<not> clone_event e \<and> stage_of e = 2) evs"
      by blast
    have "fetch_step sys repo s = pull_step sys repo ?s2"
      by (simp add: fetch_step_def g None)
    with c e t show ?thesis by (simp add: emit_def)
  qed
qed

lemma upgrade_repo_trace:
  "config (upgrade_repo sys repo s) = config s \<and>
   extends (\<lambda>e. stage_of e = 2) s (upgrade_repo sys repo s)"
proof -
  obtain out err s1 where g: "gitClone sys repo s = ((out, err), s1)"
    by (metis surj_pair)
  note t = gitClone_trace[OF g]
  have f: "config (fetch_step sys repo s') = config s' \<and>
      extends (\<lambda>e. stage_of e = 2) s' (fetch_step sys repo s')" for s'
    using fetch_step_trace[of sys repo s'] by (auto simp: extends_def list_all_iff)
  from t have x: "extends (\<lambda>e. stage_of e = 2) s s1"
    by (auto simp: extends_def)
  consider "err = Some SkipDir" | e where "err = Some e" "e \<noteq> SkipDir" | "err = None"
    by (cases err) auto
  then show ?thesis
  proof cases
    case 1
    then have "upgrade_repo sys repo s = fetch_step sys repo s1"
      by (simp add: upgrade_repo_def g)
    with f[of s1] x t show ?thesis by (auto intro: extends_trans)
  next
    case 2
    then have "upgrade_repo sys repo s = emit (Log Error (CloneFailed (Directory repo) e out)) s1"
      by (simp add: upgrade_repo_def g)
    moreover have "extends (\<lambda>e. stage_of e = 2) s1
        (emit (Log Error (CloneFailed (Directory repo) e out)) s1)"
      by (rule extends_emit) simp
    ultimately show ?thesis using x t by (auto intro: extends_trans simp: emit_def)
  next
    case 3
    let ?s2 = "emit (Log Info (CloneFinished (Directory repo))) s1"
    have "upgrade_repo sys repo s = fetch_step sys repo ?s2"
      by (simp add: upgrade_repo_def g 3)
    moreover have "extends (\<lambda>e. stage_of e = 2) s1 ?s2"
      by (rule extends_emit) simp
    ultimately show ?thesis using x t f[of ?s2]
      by (auto intro: extends_trans simp: emit_def)
  qed
qed

lemma upgrade_loop_append:
  "upgrade_loop sys (xs @ ys) s = upgrade_loop sys ys (upgrade_loop sys xs s)"
  by (simp add: upgrade_loop_def)

lemma upgrade_loop_Cons:
  "upgrade_loop sys (x # xs) s = upgrade_loop sys xs (upgrade_repo sys x s)"
  and upgrade_loop_Nil: "upgrade_loop sys [] s = s"
  by (simp_all add: upgrade_loop_def)

lemma upgrade_loop_trace:
  "config (upgrade_loop sys repos s) = config s \<and>
   extends (\<lambda>e. stage_of e = 2) s (upgrade_loop sys repos s)"
proof (induction repos arbitrary: s)
  case Nil
  show ?case by (simp add: upgrade_loop_Nil extends_refl)
next
  case (Cons r rs)
  from Cons[of "upgrade_repo sys r s"] upgrade_repo_trace[of sys r s]
  show ?case by (auto simp: upgrade_loop_Cons intro: extends_trans)
qed

lemma upgrade_result: "fst (upgrade sys s) = None"
  by (simp add: upgrade_def Let_def)

lemma upgrade_trace:
  "config (snd (upgrade sys s)) = config s \<and>
   (\<exists>evs. trace (snd (upgrade sys s)) = trace s @ Log Info Upgrading # evs @ [Log Info Upgraded] \<and>
      list_all (\<lambda>e. stage_of e = 2) evs)"
proof -
  let ?s1 = "emit (Log Info Upgrading) s"
  from upgrade_loop_trace[of sys "Repos (config ?s1)" ?s1]
  show ?thesis by (auto simp: upgrade_def Let_def emit_def extends_def)
qed


text \<open>
  C5. When \<open>os.Stat\<close> finds \<open>.git\<close> in the repository's directory, \<open>gitClone\<close> returns
  \<open>SkipDir\<close> and leaves the state as it is: no command is run, nothing is logged, whatever
  the remote is. The loop body goes on with the fetch: its first event is \<open>git fetch\<close>, no
  later event belongs to the clone step, and when the fetch exits with status 0 the pull
  step follows with \<open>git status\<close>.
\<close>

theorem existing_repository_not_cloned:
  assumes "os_Stat sys (filepath_Join sys (Directory repo) ''.git'') (world s) = None"
  shows "gitClone sys repo s = (([], Some SkipDir), s) \<and>
     (\<exists>evs. trace (upgrade_repo sys repo s) = trace s @ Exec (GitFetch (Directory repo)) # evs \<and>
        list_all (\<lambda>e. \<not> clone_event e) evs) \<and>
     (\<forall>out w1. run sys (GitFetch (Directory repo)) (world s) = (Exited out, w1) \<longrightarrow>
        (\<exists>evs. trace (upgrade_repo sys repo s) =
           trace s @ [Exec (GitFetch (Directory repo)), Log Info (FetchFinished (Directory repo)),
             Exec (GitStatus (Directory repo))] @ evs))"
proof (intro conjI allI impI)
  show c: "gitClone sys repo s = (([], Some SkipDir), s)"
    using assms by (rule gitClone_present)
  then have u: "upgrade_repo sys repo s = fetch_step sys repo s"
    by (simp add: upgrade_repo_def)
  from fetch_step_trace[of sys repo s]
  show "\<exists>evs. trace (upgrade_repo sys repo s) = trace s @ Exec (GitFetch (Directory repo)) # evs \<and>
        list_all (\<lambda>e. \<not> clone_event e) evs"
    unfolding u by (auto simp: list_all_iff)
  fix out w1
  assume r: "run sys (GitFetch (Directory repo)) (world s) = (Exited out, w1)"
  let ?s2 = "s\<lparr>world := w1, trace := trace s @
       [Exec (GitFetch (Directory repo)), Log Info (FetchFinished (Directory repo))]\<rparr>"
  from pull_step_trace[of sys repo ?s2]
  show "\<exists>evs. trace (upgrade_repo sys repo s) =
           trace s @ [Exec (GitFetch (Directory repo)), Log Info (FetchFinished (Directory repo)),
             Exec (GitStatus (Directory repo))] @ evs"
    unfolding u fetch_step_ok[OF r] by auto
qed

lemma demo_clean_match: "rx_Match gitStatusTemplateRe (clean_status uptodate_line False)"
  by (simp add: line_ok_match line_ok_def)

lemma upgrade_repo_demo_a:
  "upgrade_repo demo_sys \<lparr>Directory = ''/r/a'', Remote = ''u0''\<rparr> s =
     s\<lparr>trace := trace s @ [Exec (GitFetch ''/r/a''), Log Info (FetchFinished ''/r/a''),
        Exec (GitStatus ''/r/a''), Exec (GitPull ''/r/a''), Log Info (UpgradeFinished ''/r/a'')]\<rparr>"
  by (simp add: upgrade_repo_def gitClone_def fetch_step_def gitFetch_def pull_step_def
      gitPull_def exec_def emit_def demo_simps demo_run_def demo_clean_match)

theorem existing_repository_not_cloned_witness:
  "os_Stat demo_sys (filepath_Join demo_sys ''/r/a'' ''.git'') (world demo_state) = None \<and>
   gitClone demo_sys \<lparr>Directory = ''/r/a'', Remote = ''u0''\<rparr> demo_state
     = (([], Some SkipDir), demo_state) \<and>
   run demo_sys (GitFetch ''/r/a'') (world demo_state) = (Exited [], ()) \<and>
   trace (upgrade_repo demo_sys \<lparr>Directory = ''/r/a'', Remote = ''u0''\<rparr> demo_state) =
     [Exec (GitFetch ''/r/a''), Log Info (FetchFinished ''/r/a''),
      Exec (GitStatus ''/r/a''), Exec (GitPull ''/r/a''), Log Info (UpgradeFinished ''/r/a'')]"
proof -
  have h: "os_Stat demo_sys (filepath_Join demo_sys
      (Directory \<lparr>Directory = ''/r/a'', Remote = ''u0''\<rparr>) ''.git'') (world demo_state) = None"
    by (simp add: demo_simps)
  have r: "run demo_sys (GitFetch ''/r/a'') (world demo_state) = (Exited [], ())"
    by (simp add: demo_simps demo_run_def)
  from existing_repository_not_cloned[OF h] h r show ?thesis
    by (simp add: upgrade_repo_demo_a demo_state_def)
qed

text \<open>
  C6. When the clone step fails, the loop body adds the error line "Clone failed" to what
  \<open>gitClone\<close> did (at most the one \<open>git clone\<close>) and nothing else; when the fetch step
  fails, it adds the error line "Fetch failed" after the one \<open>git fetch\<close>, and no status or
  pull. The loop handles the repositories after \<open>repo\<close> from the state \<open>repo\<close> left,
  whatever happened to it, and \<open>upgrade\<close> always returns nil.
\<close>

theorem failed_repository_does_not_stop_loop:
  "(gitClone sys repo s = ((out, Some e), s1) \<and> e \<noteq> SkipDir \<longrightarrow>
      upgrade_repo sys repo s = emit (Log Error (CloneFailed (Directory repo) e out)) s1 \<and>
      (trace s1 = trace s \<or>
       trace s1 = trace s @ [Exec (GitClone (Remote repo) (Directory repo))])) \<and>
   (gitClone sys repo s = ((out1, c), s1) \<and> (c = None \<or> c = Some SkipDir) \<and>
    s2 = (if c = None then emit (Log Info (CloneFinished (Directory repo))) s1 else s1) \<and>
    gitFetch sys repo s2 = ((out, Some e), s3) \<longrightarrow>
      upgrade_repo sys repo s = emit (Log Error (FetchFailed (Directory repo) e out)) s3 \<and>
      trace s3 = trace s2 @ [Exec (GitFetch (Directory repo))]) \<and>
   upgrade_loop sys (pre @ repo # post) s =
     upgrade_loop sys post (upgrade_repo sys repo (upgrade_loop sys pre s)) \<and>
   upgrade sys s =
     (None, emit (Log Info Upgraded)
        (upgrade_loop sys (Repos (config s)) (emit (Log Info Upgrading) s)))"
proof (intro conjI impI)
  assume a: "gitClone sys repo s = ((out, Some e), s1) \<and> e \<noteq> SkipDir"
  then show "upgrade_repo sys repo s = emit (Log Error (CloneFailed (Directory repo) e out)) s1"
    by (simp add: upgrade_repo_def)
  from a gitClone_trace[of sys repo s "(out, Some e)" s1]
  show "trace s1 = trace s \<or>
       trace s1 = trace s @ [Exec (GitClone (Remote repo) (Directory repo))]"
    by simp
next
  assume a: "gitClone sys repo s = ((out1, c), s1) \<and> (c = None \<or> c = Some SkipDir) \<and>
    s2 = (if c = None then emit (Log Info (CloneFinished (Directory repo))) s1 else s1) \<and>
    gitFetch sys repo s2 = ((out, Some e), s3)"
  then have "upgrade_repo sys repo s = fetch_step sys repo s2"
    by (auto simp: upgrade_repo_def)
  moreover from a have gf: "gitFetch sys repo s2 = ((out, Some e), s3)" by blast
  ultimately
  show "upgrade_repo sys repo s = emit (Log Error (FetchFailed (Directory repo) e out)) s3"
    by (simp only: fetch_step_failed)
  show "trace s3 = trace s2 @ [Exec (GitFetch (Directory repo))]"
    by (rule conjunct2[OF gitFetch_trace[OF gf]])
next
  show "upgrade_loop sys (pre @ repo # post) s =
     upgrade_loop sys post (upgrade_repo sys repo (upgrade_loop sys pre s))"
    by (simp add: upgrade_loop_append upgrade_loop_Cons)
  show "upgrade sys s =
     (None, emit (Log Info Upgraded)
        (upgrade_loop sys (Repos (config s)) (emit (Log Info Upgrading) s)))"
    by (simp add: upgrade_def Let_def emit_def)
qed

lemma upgrade_repo_demo_c:
  "upgrade_repo demo_sys \<lparr>Directory = ''/r/c'', Remote = ''uc''\<rparr> s =
     s\<lparr>trace := trace s @ [Exec (GitClone ''uc'' ''/r/c''),
        Log Error (CloneFailed ''/r/c'' (Sys (OsError ''exit status 128''))
          ''fatal: repository not found'')]\<rparr>"
  by (simp add: upgrade_repo_def gitClone_def exec_def emit_def demo_simps demo_run_def)

lemma upgrade_repo_demo_d:
  "upgrade_repo demo_sys \<lparr>Directory = ''/r/d'', Remote = ''ud''\<rparr> s =
     s\<lparr>trace := trace s @ [Exec (GitFetch ''/r/d''),
        Log Error (FetchFailed ''/r/d'' (Sys (OsError ''exit status 128''))
          ''fatal: unable to access'')]\<rparr>"
  by (simp add: upgrade_repo_def gitClone_def fetch_step_def gitFetch_def exec_def emit_def
      demo_simps demo_run_def)

theorem failed_repository_does_not_stop_loop_witness:
  "gitClone demo_sys \<lparr>Directory = ''/r/c'', Remote = ''uc''\<rparr> demo_state =
     ((''fatal: repository not found'', Some (Sys (OsError ''exit status 128''))),
      demo_state\<lparr>trace := [Exec (GitClone ''uc'' ''/r/c'')]\<rparr>) \<and>
   Sys (OsError ''exit status 128'') \<noteq> SkipDir \<and>
   gitClone demo_sys \<lparr>Directory = ''/r/d'', Remote = ''ud''\<rparr> demo_state =
     (([], Some SkipDir), demo_state) \<and>
   gitFetch demo_sys \<lparr>Directory = ''/r/d'', Remote = ''ud''\<rparr> demo_state =
     ((''fatal: unable to access'', Some (Sys (OsError ''exit status 128''))),
      demo_state\<lparr>trace := [Exec (GitFetch ''/r/d'')]\<rparr>) \<and>
   trace (snd (upgrade demo_sys
     (demo_state\<lparr>config := \<lparr>Repos = demo_manifest @ [\<lparr>Directory = ''/r/d'', Remote = ''ud''\<rparr>]\<rparr>\<rparr>))) =
     [Log Info Upgrading,
      Exec (GitClone ''uc'' ''/r/c''),
      Log Error (CloneFailed ''/r/c'' (Sys (OsError ''exit status 128''))
          ''fatal: repository not found''),
      Exec (GitFetch ''/r/a''), Log Info (FetchFinished ''/r/a''),
      Exec (GitStatus ''/r/a''), Exec (GitPull ''/r/a''), Log Info (UpgradeFinished ''/r/a''),
      Exec (GitFetch ''/r/d''),
      Log Error (FetchFailed ''/r/d'' (Sys (OsError ''exit status 128''))
          ''fatal: unable to access''),
      Log Info Upgraded]"
proof -
  let ?c = "\<lparr>Directory = ''/r/c'', Remote = ''uc''\<rparr>"
  let ?d = "\<lparr>Directory = ''/r/d'', Remote = ''ud''\<rparr>"
  let ?e = "Sys (OsError ''exit status 128'')"
  let ?s = "demo_state\<lparr>config := \<lparr>Repos = demo_manifest @ [?d]\<rparr>\<rparr>"
  have c: "gitClone demo_sys ?c demo_state =
     ((''fatal: repository not found'', Some ?e),
      demo_state\<lparr>trace := [Exec (GitClone ''uc'' ''/r/c'')]\<rparr>)"
    by (simp add: gitClone_def exec_def emit_def demo_simps demo_run_def demo_state_def)
  have d: "gitClone demo_sys ?d demo_state = (([], Some SkipDir), demo_state)"
    by (simp add: gitClone_def demo_simps)
  have f: "gitFetch demo_sys ?d demo_state =
     ((''fatal: unable to access'', Some ?e), demo_state\<lparr>trace := [Exec (GitFetch ''/r/d'')]\<rparr>)"
    by (simp add: gitFetch_def exec_def emit_def demo_simps demo_run_def demo_state_def)
  note w1 = failed_repository_does_not_stop_loop[where sys = demo_sys and repo = ?c
      and s = demo_state and out = "''fatal: repository not found''" and e = ?e
      and ?s1.0 = "demo_state\<lparr>trace := [Exec (GitClone ''uc'' ''/r/c'')]\<rparr>", THEN conjunct1]
  note w2 = failed_repository_does_not_stop_loop[where sys = demo_sys and repo = ?d
      and s = demo_state and out = "''fatal: unable to access''" and e = ?e
      and ?out1.0 = "[]" and c = "Some SkipDir" and ?s1.0 = demo_state and ?s2.0 = demo_state
      and ?s3.0 = "demo_state\<lparr>trace := [Exec (GitFetch ''/r/d'')]\<rparr>",
      THEN conjunct2, THEN conjunct1]
  note w3 = failed_repository_does_not_stop_loop[where sys = demo_sys and s = ?s,
      THEN conjunct2, THEN conjunct2, THEN conjunct2]
  have "trace (snd (upgrade demo_sys ?s)) =
     [Log Info Upgrading,
      Exec (GitClone ''uc'' ''/r/c''),
      Log Error (CloneFailed ''/r/c'' ?e ''fatal: repository not found''),
      Exec (GitFetch ''/r/a''), Log Info (FetchFinished ''/r/a''),
      Exec (GitStatus ''/r/a''), Exec (GitPull ''/r/a''), Log Info (UpgradeFinished ''/r/a''),
      Exec (GitFetch ''/r/d''),
      Log Error (FetchFailed ''/r/d'' ?e ''fatal: unable to access''),
      Log Info Upgraded]"
    unfolding w3
    by (simp add: demo_manifest_def upgrade_loop_Cons upgrade_loop_Nil upgrade_repo_demo_a
        upgrade_repo_demo_c upgrade_repo_demo_d emit_def demo_state_def)
  with c d f w1 w2 show ?thesis by simp
qed


section \<open>Discovery\<close>

lemma remoteDir_not_SkipDir: "snd (remoteDir sys p w) \<noteq> Some SkipDir"
  by (simp add: remoteDir_def split: cfg_result.splits)

lemma walkFn_inv:
  assumes "walkFn sys path v s = (r, s')"
  shows "world s' = world s \<and> extends (\<lambda>e. stage_of e = 1) s s' \<and>
    (case v of
       Failed e \<Rightarrow> r = Some e
     | Entry info \<Rightarrow>
         if IsDir info \<and> Name info = ''.git''
         then r = (case snd (remoteDir sys path (world s)) of None \<Rightarrow> Some SkipDir | Some e \<Rightarrow> Some e)
         else r = None)"
proof (cases v)
  case (Failed e)
  with assms show ?thesis by (auto simp: walkFn_def extends_emit world_emit)
next
  case (Entry info)
  with assms show ?thesis
    by (auto simp: walkFn_def extends_def split: if_splits prod.splits option.splits)
qed

text \<open>What a walk can return, given what it leaves undone.\<close>

lemma walk_inv:
  "walk sys path node s = (r, s') \<Longrightarrow>
     world s' = world s \<and> extends (\<lambda>e. stage_of e = 1) s s' \<and>
     (is_file node \<longrightarrow> r = None) \<and>
     (r = None \<or> r = Some SkipDir \<longrightarrow>
        (\<forall>p \<in> set (git_dirs sys path node). snd (remoteDir sys p (world s)) = None)) \<and>
     (\<forall>e. r = Some e \<and> e \<noteq> SkipDir \<longrightarrow>
        e \<in> Sys ` set (tree_errors node) \<or>
        (\<exists>p \<in> set (git_dirs sys path node). snd (remoteDir sys p (world s)) = Some e))"
  "walk_names sys path kids s = (r, s') \<Longrightarrow>
     world s' = world s \<and> extends (\<lambda>e. stage_of e = 1) s s' \<and>
     r \<noteq> Some SkipDir \<and>
     (r = None \<longrightarrow>
        (\<forall>p \<in> set (git_dirs_in sys path kids). snd (remoteDir sys p (world s)) = None)) \<and>
     (\<forall>e. r = Some e \<longrightarrow>
        e \<in> Sys ` set (tree_errors_in kids) \<or>
        (\<exists>p \<in> set (git_dirs_in sys path kids). snd (remoteDir sys p (world s)) = Some e))"
proof (induction sys path node s and sys path kids s arbitrary: r s' and r s'
    rule: walk_walk_names.induct)
  case (1 sys path n s)
  from walkFn_inv[of sys path "Entry \<lparr>IsDir = False, Name = n\<rparr>" s r s'] 1
  show ?case by simp
next
  case (2 sys path n e s)
  from walkFn_inv[of sys path "Failed (Sys e)" s r s'] 2
  show ?case by simp
next
  case (3 sys path n e s)
  from walkFn_inv[of sys path "Failed (Sys e)" s r s'] 3
  show ?case by simp
next
  case (4 sys path n kids s)
  obtain r0 s0 where w: "walkFn sys path (Entry \<lparr>IsDir = True, Name = n\<rparr>) s = (r0, s0)"
    by (metis surj_pair)
  note f = walkFn_inv[OF w]
  show ?case
  proof (cases r0)
    case (Some e)
    with w "4.prems" have rs: "r = Some e" "s' = s0" by simp_all
    from f Some have g: "n = ''.git''"
      by (auto split: if_splits)
    with f Some rs show ?thesis
      using remoteDir_not_SkipDir[of sys path "world s"]
      by (auto split: option.splits)
  next
    case None
    with w "4.prems" have k: "walk_names sys path kids s0 = (r, s')" by simp
    from f None have g: "n \<noteq> ''.git''" by (auto split: if_splits option.splits)
    from "4.IH"[OF w[unfolded None, symmetric] refl k] f g
    show ?thesis by (auto intro: extends_trans)
  qed
next
  case (5 sys path s)
  then show ?case by (auto simp: extends_refl)
next
  case (6 sys path k ks s)
  let ?p = "filepath_Join sys path (node_name k)"
  obtain r0 s0 where w: "walk sys ?p k s = (r0, s0)" by (metis surj_pair)
  note a = "6.IH"(1)[OF w]
  show ?case
  proof (cases "r0 = None \<or> (r0 = Some SkipDir \<and> \<not> is_file k)")
    case True
    with w "6.prems" have n: "walk_names sys path ks s0 = (r, s')"
      by (auto split: if_splits)
    have b: "world s' = world s0 \<and> extends (\<lambda>e. stage_of e = 1) s0 s' \<and>
     r \<noteq> Some SkipDir \<and>
     (r = None \<longrightarrow>
        (\<forall>p \<in> set (git_dirs_in sys path ks). snd (remoteDir sys p (world s0)) = None)) \<and>
     (\<forall>e. r = Some e \<longrightarrow>
        e \<in> Sys ` set (tree_errors_in ks) \<or>
        (\<exists>p \<in> set (git_dirs_in sys path ks). snd (remoteDir sys p (world s0)) = Some e))"
    proof (cases r0)
      case None
      show ?thesis by (rule "6.IH"(2)[OF w[symmetric] None n])
    next
      case (Some e)
      with True have e: "e = SkipDir \<and> \<not> is_file k" by simp
      show ?thesis by (rule "6.IH"(3)[OF w[symmetric] Some e n])
    qed
    from a b True show ?thesis
      by (auto intro: extends_trans)
  next
    case False
    then obtain e where e: "r0 = Some e" "e \<noteq> SkipDir \<or> is_file k" by (cases r0) auto
    with w "6.prems" have rs: "r = Some e" "s' = s0" by (auto split: if_splits)
    from a e have "e \<noteq> SkipDir" by auto
    with a e rs show ?thesis by auto
  qed
qed

lemma Walk_inv:
  assumes "Walk sys root s = (r, s')"
  shows "world s' = world s \<and> extends (\<lambda>e. stage_of e = 1) s s' \<and> r \<noteq> Some SkipDir \<and>
     (r = None \<longrightarrow> (\<forall>p \<in> set (git_dirs sys root (lstat_tree sys root (world s))).
          snd (remoteDir sys p (world s)) = None)) \<and>
     (\<forall>e. r = Some e \<longrightarrow>
        e \<in> Sys ` set (tree_errors (lstat_tree sys root (world s))) \<or>
        (\<exists>p \<in> set (git_dirs sys root (lstat_tree sys root (world s))).
           snd (remoteDir sys p (world s)) = Some e))"
proof -
  obtain r0 s0 where w: "walk sys root (lstat_tree sys root (world s)) s = (r0, s0)"
    by (metis surj_pair)
  from assms w have "s' = s0" "r = (if r0 = Some SkipDir then None else r0)"
    by (auto simp: Walk_def split: if_splits)
  with walk_inv(1)[OF w] show ?thesis by (auto split: if_splits)
qed

lemma update_inv:
  assumes "update sys fl s = (r, s')"
  shows "world s' = world s \<and>
     (\<exists>evs. trace s' = trace s @ Log Info Updating # evs \<and> list_all (\<lambda>e. stage_of e = 1) evs) \<and>
     (r = None \<longrightarrow> (\<forall>p \<in> set (git_dirs sys (RootDir fl) (lstat_tree sys (RootDir fl) (world s))).
          snd (remoteDir sys p (world s)) = None)) \<and>
     (\<forall>e. r = Some e \<longrightarrow>
        e \<in> Sys ` set (tree_errors (lstat_tree sys (RootDir fl) (world s))) \<or>
        (\<exists>p \<in> set (git_dirs sys (RootDir fl) (lstat_tree sys (RootDir fl) (world s))).
           snd (remoteDir sys p (world s)) = Some e))"
proof -
  let ?s1 = "emit (Log Info Updating) s"
  obtain r0 s0 where w: "Walk sys (RootDir fl) ?s1 = (r0, s0)" by (metis surj_pair)
  from Walk_inv[OF w] obtain evs where
    i: "world s0 = world s" "trace s0 = trace s @ Log Info Updating # evs"
      "list_all (\<lambda>e. stage_of e = 1) evs"
    by (auto simp: extends_def emit_def)
  show ?thesis
  proof (cases r0)
    case None
    with assms w have "r = None" and
      "s' = emit (Log Info (Updated (length (merge_repos (Repos (config s0))))))
         (s0\<lparr>config := \<lparr>Repos = merge_repos (Repos (config s0))\<rparr>\<rparr>)"
      by (simp_all add: update_def Let_def)
    with i Walk_inv[OF w] None show ?thesis by (simp add: emit_def)
  next
    case (Some e)
    with assms w have "r = Some e" and
      "s' = emit (Log Info (Updated (length (Repos (config s0))))) s0"
      by (simp_all add: update_def)
    with i Walk_inv[OF w] Some show ?thesis by (simp add: emit_def)
  qed
qed


lemma walkFn_appends:
  assumes "walkFn sys path v s = (r, s')"
  shows "\<exists>disc. Repos (config s') = Repos (config s) @ disc"
  using assms
  by (auto simp: walkFn_def emit_def split: visit.splits if_splits prod.splits option.splits)

lemma walk_appends:
  "walk sys path node s = (r, s') \<Longrightarrow> \<exists>disc. Repos (config s') = Repos (config s) @ disc"
  "walk_names sys path kids s = (r, s') \<Longrightarrow> \<exists>disc. Repos (config s') = Repos (config s) @ disc"
proof (induction sys path node s and sys path kids s arbitrary: r s' and r s'
    rule: walk_walk_names.induct)
  case (1 sys path n s)
  then show ?case by (simp add: walkFn_appends)
next
  case (2 sys path n e s)
  then show ?case by (simp add: walkFn_appends)
next
  case (3 sys path n e s)
  then show ?case by (simp add: walkFn_appends)
next
  case (4 sys path n kids s)
  obtain r0 s0 where w: "walkFn sys path (Entry \<lparr>IsDir = True, Name = n\<rparr>) s = (r0, s0)"
    by (metis surj_pair)
  from walkFn_appends[OF w] obtain d0 where d0: "Repos (config s0) = Repos (config s) @ d0" ..
  show ?case
  proof (cases r0)
    case (Some e)
    with w "4.prems" d0 show ?thesis by auto
  next
    case None
    with w "4.prems" have k: "walk_names sys path kids s0 = (r, s')" by simp
    from "4.IH"[OF w[unfolded None, symmetric] refl k] d0 show ?thesis by auto
  qed
next
  case (5 sys path s)
  then show ?case by simp
next
  case (6 sys path k ks s)
  let ?p = "filepath_Join sys path (node_name k)"
  obtain r0 s0 where w: "walk sys ?p k s = (r0, s0)" by (metis surj_pair)
  from "6.IH"(1)[OF w] obtain d0 where d0: "Repos (config s0) = Repos (config s) @ d0" ..
  show ?case
  proof (cases "r0 = None \<or> (r0 = Some SkipDir \<and> \<not> is_file k)")
    case True
    with w "6.prems" have n: "walk_names sys path ks s0 = (r, s')"
      by (auto split: if_splits)
    have "\<exists>disc. Repos (config s') = Repos (config s0) @ disc"
    proof (cases r0)
      case None
      show ?thesis by (rule "6.IH"(2)[OF w[symmetric] None n])
    next
      case (Some e)
      with True have e: "e = SkipDir \<and> \<not> is_file k" by simp
      show ?thesis by (rule "6.IH"(3)[OF w[symmetric] Some e n])
    qed
    with d0 show ?thesis by auto
  next
    case False
    then obtain e where e: "r0 = Some e" "e \<noteq> SkipDir \<or> is_file k" by (cases r0) auto
    with w "6.prems" have "s' = s0" by (auto split: if_splits)
    with d0 show ?thesis by auto
  qed
qed

text \<open>
  What \<open>update\<close> leaves in \<open>config.Repos\<close> when the walk succeeds: the merge of the loaded
  entries followed by the discovered ones.
\<close>

lemma update_merges:
  assumes "update sys fl s = (None, s')"
  shows "\<exists>disc. Repos (config s') = merge_repos (Repos (config s) @ disc)"
proof -
  let ?s1 = "emit (Log Info Updating) s"
  obtain r0 s0 where w: "Walk sys (RootDir fl) ?s1 = (r0, s0)" by (metis surj_pair)
  obtain r1 where w1: "walk sys (RootDir fl) (lstat_tree sys (RootDir fl) (world ?s1)) ?s1 = (r1, s0)"
    using w by (auto simp: Walk_def split: prod.splits if_splits)
  from walk_appends(1)[OF w1] obtain disc where
    d: "Repos (config s0) = Repos (config s) @ disc" by (auto simp: emit_def)
  from assms w have "r0 = None" by (cases r0) (auto simp: update_def)
  with assms w have "config s' = \<lparr>Repos = merge_repos (Repos (config s0))\<rparr>"
    by (auto simp: update_def Let_def emit_def)
  with d show ?thesis by auto
qed

section \<open>The run as a whole\<close>

lemma do_load_failed:
  assumes "ioutil_ReadFile sys (manifest_path sys fl) (world s) = Inl e"
  shows "do sys fl s = (Some (Sys e), emit (ReadManifest (manifest_path sys fl)) s)"
  using assms by (simp add: do_def Let_def world_emit)

lemma do_parse_failed:
  assumes "ioutil_ReadFile sys (manifest_path sys fl) (world s) = Inr y"
    and "yaml_Unmarshal sys y = Inl e"
  shows "do sys fl s = (Some (Sys e), emit (ReadManifest (manifest_path sys fl)) s)"
  using assms by (simp add: do_def Let_def world_emit)

lemma do_update_failed:
  assumes "ioutil_ReadFile sys (manifest_path sys fl) (world s) = Inr y"
    and "yaml_Unmarshal sys y = Inr c"
    and "Update fl"
    and "update sys fl (emit (ReadManifest (manifest_path sys fl)) s\<lparr>config := c\<rparr>)
      = (Some e, s1)"
  shows "do sys fl s = (Some e, s1)"
  using assms by (simp add: do_def Let_def world_emit)

text \<open>The run after a load and a discovery that did not fail.\<close>

lemma do_continues:
  assumes "ioutil_ReadFile sys (manifest_path sys fl) (world s) = Inr y"
    and "yaml_Unmarshal sys y = Inr c"
    and "s1 = (if Update fl
      then snd (update sys fl (emit (ReadManifest (manifest_path sys fl)) s\<lparr>config := c\<rparr>))
      else emit (ReadManifest (manifest_path sys fl)) s\<lparr>config := c\<rparr>)"
    and "Update fl \<longrightarrow>
      fst (update sys fl (emit (ReadManifest (manifest_path sys fl)) s\<lparr>config := c\<rparr>)) = None"
    and "s2 = (if Upgrade fl then snd (upgrade sys s1) else s1)"
  shows "do sys fl s =
     (if Update fl then
        (case yaml_Marshal sys (config s2) of
           Inl e \<Rightarrow> (Some (Sys e), s2)
         | Inr out \<Rightarrow>
            (map_option Sys (fst (ioutil_WriteFile sys (manifest_path sys fl) out (world s2))),
             emit (WriteManifest (manifest_path sys fl) out)
               (s2\<lparr>world := snd (ioutil_WriteFile sys (manifest_path sys fl) out (world s2))\<rparr>)))
      else (None, s2))"
proof -
  let ?t = "emit (ReadManifest (manifest_path sys fl)) s\<lparr>config := c\<rparr>"
  have u: "(if Update fl then update sys fl ?t else (None, ?t)) = (None, s1)"
    using assms(3,4) by (auto simp: prod_eq_iff)
  have g: "(if Upgrade fl then upgrade sys s1 else (None, s1)) = (None, s2)"
    using assms(5) upgrade_result[of sys s1] by (auto simp: prod_eq_iff)
  show ?thesis
    unfolding do_def Let_def
    by (simp only: world_emit assms(1,2) sum.case u g prod.case option.case)
      (simp split: sum.splits prod.splits)
qed

lemma sorted_same_stage: "list_all (\<lambda>e. stage_of e = k) xs \<Longrightarrow> sorted (map stage_of xs)"
  by (induction xs) (auto simp: list_all_iff)

lemma sorted_stages:
  assumes "list_all (\<lambda>e. stage_of e = 1) us" "list_all (\<lambda>e. stage_of e = 2) gs"
    and "list_all (\<lambda>e. stage_of e = 3) ps"
  shows "sorted (map stage_of (us @ gs @ ps)) \<and>
     list_all (\<lambda>e. 1 \<le> stage_of e \<and> stage_of e \<le> 3) (us @ gs @ ps)"
  using assms sorted_same_stage[OF assms(1)] sorted_same_stage[OF assms(2)]
    sorted_same_stage[OF assms(3)]
  by (auto simp: sorted_append list_all_iff)

lemma ex3I: "P a b c \<Longrightarrow> \<exists>x y z. P x y z"
  by blast

text \<open>The events of a run, by stage.\<close>

lemma do_trace:
  "\<exists>us gs ps.
     trace (snd (do sys fl s)) = trace s @ ReadManifest (manifest_path sys fl) # us @ gs @ ps \<and>
     list_all (\<lambda>e. stage_of e = 1) us \<and> list_all (\<lambda>e. stage_of e = 2) gs \<and>
     list_all (\<lambda>e. stage_of e = 3) ps \<and>
     (\<not> Update fl \<longrightarrow> us = [] \<and> ps = []) \<and> (\<not> Upgrade fl \<longrightarrow> gs = []) \<and>
     (fst (do sys fl s) = None \<longrightarrow>
        (Update fl \<longrightarrow> Log Info Updating \<in> set us \<and>
           (\<exists>out. ps = [WriteManifest (manifest_path sys fl) out])) \<and>
        (Upgrade fl \<longrightarrow> Log Info Upgrading \<in> set gs \<and> Log Info Upgraded \<in> set gs))"
  (is "\<exists>us gs ps. ?P us gs ps")
proof -
  let ?f = "manifest_path sys fl"
  let ?s0 = "emit (ReadManifest ?f) s"
  show ?thesis
  proof (cases "ioutil_ReadFile sys ?f (world s)")
    case (Inl e)
    have h: "?P [] [] []" by (simp add: do_load_failed[OF Inl] emit_def)
    show ?thesis by (rule ex3I, rule h)
  next
    case (Inr y)
    show ?thesis
    proof (cases "yaml_Unmarshal sys y")
      case (Inl e)
      have h: "?P [] [] []" by (simp add: do_parse_failed[OF Inr Inl] emit_def)
      show ?thesis by (rule ex3I, rule h)
    next
      case c: (Inr c)
      let ?t = "?s0\<lparr>config := c\<rparr>"
      obtain r1 u1 where up: "update sys fl ?t = (r1, u1)" by (metis surj_pair)
      from update_inv[OF up] obtain us where
        us: "trace u1 = trace s @ ReadManifest ?f # Log Info Updating # us"
        "list_all (\<lambda>e. stage_of e = 1) us"
        by (auto simp: emit_def)
      show ?thesis
      proof (cases "Update fl \<and> r1 \<noteq> None")
        case True
        then obtain e where "r1 = Some e" by auto
        with True up have "do sys fl s = (Some e, u1)"
          using do_update_failed[OF Inr c] by simp
        with us True have h: "?P (Log Info Updating # us) [] []" by simp
        show ?thesis by (rule ex3I, rule h)
      next
        case False
        define s1 where "s1 = (if Update fl then snd (update sys fl ?t) else ?t)"
        define s2 where "s2 = (if Upgrade fl then snd (upgrade sys s1) else s1)"
        from False up have ok: "Update fl \<longrightarrow> fst (update sys fl ?t) = None" by simp
        note d = do_continues[OF Inr c s1_def ok s2_def]
        obtain us' where us': "trace s1 = trace s @ ReadManifest ?f # us'"
          "list_all (\<lambda>e. stage_of e = 1) us'" "\<not> Update fl \<longrightarrow> us' = []"
          "Update fl \<longrightarrow> Log Info Updating \<in> set us'"
        proof (cases "Update fl")
          case True
          with up us have "trace s1 = trace s @ ReadManifest ?f # (Log Info Updating # us)"
            by (simp add: s1_def)
          with that[of "Log Info Updating # us"] us(2) True show ?thesis by simp
        next
          case False
          then have "trace s1 = trace s @ ReadManifest ?f # []" by (simp add: s1_def emit_def)
          with that[of "[]"] False show ?thesis by simp
        qed
        obtain gs where gs: "trace s2 = trace s1 @ gs" "list_all (\<lambda>e. stage_of e = 2) gs"
          "\<not> Upgrade fl \<longrightarrow> gs = []"
          "Upgrade fl \<longrightarrow> Log Info Upgrading \<in> set gs \<and> Log Info Upgraded \<in> set gs"
        proof (cases "Upgrade fl")
          case True
          from upgrade_trace[of sys s1] obtain evs where
            "trace (snd (upgrade sys s1)) = trace s1 @ Log Info Upgrading # evs @ [Log Info Upgraded]"
            "list_all (\<lambda>e. stage_of e = 2) evs" by blast
          with that[of "Log Info Upgrading # evs @ [Log Info Upgraded]"] True show ?thesis
            by (simp add: s2_def)
        next
          case False
          with that[of "[]"] show ?thesis by (simp add: s2_def)
        qed
        show ?thesis
        proof (cases "Update fl")
          case False
          with d have "do sys fl s = (None, s2)" by simp
          with us' gs False have h: "?P us' gs []" by simp
          show ?thesis by (rule ex3I, rule h)
        next
          case True
          show ?thesis
          proof (cases "yaml_Marshal sys (config s2)")
            case (Inl e)
            with d True have "do sys fl s = (Some (Sys e), s2)" by simp
            with us' gs have h: "?P us' gs []" by simp
            show ?thesis by (rule ex3I, rule h)
          next
            case (Inr out)
            with d True have "trace (snd (do sys fl s)) = trace s2 @ [WriteManifest ?f out]"
              by (simp add: emit_def)
            with us' gs True have h: "?P us' gs [WriteManifest ?f out]" by simp
            show ?thesis by (rule ex3I, rule h)
          qed
        qed
      qed
    qed
  qed
qed


lemma demo_fields:
  "lstat_tree demo_sys root w = (if root = ''/r'' then demo_tree
                              else if root = ''/r/a'' then demo_repo
                              else NoStat root NotExist)"
  "git_config demo_sys p w = (if p = ''/r/a/.git/config'' then Url ''u1'' else NoSection)"
  "filepath_Dir demo_sys p = rev (tl (dropWhile (\<lambda>c. c \<noteq> CHR ''/'') (rev p)))"
  "ioutil_ReadFile demo_sys p w = (if p = ''/none/repositories.txt'' then Inl NotExist
                                else if p = ''/bad/repositories.txt'' then Inr ''{''
                                else Inr ''repos: ...'')"
  "ioutil_WriteFile demo_sys p out w = (None, w)"
  "yaml_Unmarshal demo_sys text = (if text = ''{'' then Inl (OsError ''yaml: line 1'')
                               else Inr \<lparr>Repos = demo_manifest\<rparr>)"
  "yaml_Marshal demo_sys c = Inr ''repos: ...''"
  by (simp_all add: demo_sys_def)

lemma demo_update_a:
  "update demo_sys (demo_flags ''/r/a'') \<lparr>world = (), config = \<lparr>Repos = demo_manifest\<rparr>, trace = t\<rparr> =
     (None, \<lparr>world = (), config = \<lparr>Repos =
        [\<lparr>Directory = ''/r/a'', Remote = ''u1''\<rparr>, \<lparr>Directory = ''/r/c'', Remote = ''uc''\<rparr>]\<rparr>,
        trace = t @ [Log Info Updating, Log Info (Updated 2)]\<rparr>)"
  by (simp add: update_def Walk_def walkFn_def remoteDir_def emit_def demo_fields demo_simps
      demo_flags_def demo_repo_def demo_manifest_def merge_repos_def repoDict_of_def
      entries_of_def Let_def)

lemma demo_update_r:
  \<open>update demo_sys (demo_flags ''/r'') \<lparr>world = (), config = \<lparr>Repos = demo_manifest\<rparr>, trace = t\<rparr> =
     (Some (Msg ''can't find "origin" in /r/b/.git''),
      \<lparr>world = (), config = \<lparr>Repos = demo_manifest @ [\<lparr>Directory = ''/r/a'', Remote = ''u1''\<rparr>]\<rparr>,
        trace = t @ [Log Info Updating, Log Info (Updated 3)]\<rparr>)\<close>
  by (simp add: update_def Walk_def walkFn_def remoteDir_def emit_def demo_fields demo_simps
      demo_flags_def demo_repo_def demo_tree_def demo_manifest_def Let_def)

lemma demo_upgrade:
  "upgrade demo_sys \<lparr>world = (), config = \<lparr>Repos =
        [\<lparr>Directory = ''/r/a'', Remote = ''u1''\<rparr>, \<lparr>Directory = ''/r/c'', Remote = ''uc''\<rparr>]\<rparr>,
        trace = t\<rparr> =
    (None, \<lparr>world = (), config = \<lparr>Repos =
        [\<lparr>Directory = ''/r/a'', Remote = ''u1''\<rparr>, \<lparr>Directory = ''/r/c'', Remote = ''uc''\<rparr>]\<rparr>,
        trace = t @ [Log Info Upgrading,
          Exec (GitFetch ''/r/a''), Log Info (FetchFinished ''/r/a''),
          Exec (GitStatus ''/r/a''), Exec (GitPull ''/r/a''), Log Info (UpgradeFinished ''/r/a''),
          Exec (GitClone ''uc'' ''/r/c''),
          Log Error (CloneFailed ''/r/c'' (Sys (OsError ''exit status 128''))
            ''fatal: repository not found''),
          Log Info Upgraded]\<rparr>)"
  by (simp add: upgrade_def Let_def upgrade_loop_Cons upgrade_loop_Nil emit_def
      upgrade_repo_def gitClone_def fetch_step_def gitFetch_def pull_step_def
      gitPull_def exec_def demo_simps demo_run_def demo_clean_match)

lemma demo_do_a:
  "do demo_sys (demo_flags ''/r/a'') demo_state =
    (None, \<lparr>world = (), config = \<lparr>Repos =
        [\<lparr>Directory = ''/r/a'', Remote = ''u1''\<rparr>, \<lparr>Directory = ''/r/c'', Remote = ''uc''\<rparr>]\<rparr>,
        trace = [ReadManifest ''/r/a/repositories.txt'',
          Log Info Updating, Log Info (Updated 2),
          Log Info Upgrading,
          Exec (GitFetch ''/r/a''), Log Info (FetchFinished ''/r/a''),
          Exec (GitStatus ''/r/a''), Exec (GitPull ''/r/a''), Log Info (UpgradeFinished ''/r/a''),
          Exec (GitClone ''uc'' ''/r/c''),
          Log Error (CloneFailed ''/r/c'' (Sys (OsError ''exit status 128''))
            ''fatal: repository not found''),
          Log Info Upgraded,
          WriteManifest ''/r/a/repositories.txt'' ''repos: ...'']\<rparr>)"
proof -
  have f: "manifest_path demo_sys (demo_flags ''/r/a'') = ''/r/a/repositories.txt''"
    by (simp add: manifest_path_def demo_simps demo_flags_def)
  have fl: "Update (demo_flags ''/r/a'')" "Upgrade (demo_flags ''/r/a'')"
    by (simp_all add: demo_flags_def)
  show ?thesis
    unfolding do_def Let_def f
    by (simp add: fl demo_fields emit_def demo_state_def demo_update_a demo_upgrade)
qed

lemma demo_do_r:
  \<open>do demo_sys (demo_flags ''/r'') demo_state =
    (Some (Msg ''can't find "origin" in /r/b/.git''),
      \<lparr>world = (), config = \<lparr>Repos = demo_manifest @ [\<lparr>Directory = ''/r/a'', Remote = ''u1''\<rparr>]\<rparr>,
        trace = [ReadManifest ''/r/repositories.txt'', Log Info Updating, Log Info (Updated 3)]\<rparr>)\<close>
proof -
  have f: "manifest_path demo_sys (demo_flags ''/r'') = ''/r/repositories.txt''"
    by (simp add: manifest_path_def demo_simps demo_flags_def)
  have fl: "Update (demo_flags ''/r'')" "Upgrade (demo_flags ''/r'')"
    by (simp_all add: demo_flags_def)
  show ?thesis
    unfolding do_def Let_def f
    by (simp add: fl demo_fields emit_def demo_state_def demo_update_r)
qed


text \<open>
  C7. A run starts by reading the manifest. The events after that are ordered by stage:
  discovery, then reconciliation, then the write of the manifest; without the update flag
  there are only reconciliation events, without the upgrade flag there are none. When the
  manifest cannot be read or parsed, \<open>do\<close> returns the error with nothing done but the
  read; when \<open>update\<close> fails, \<open>do\<close> returns its error in the state \<open>update\<close> left, which
  holds discovery events only. \<open>upgrade\<close> never returns an error. Once the manifest is
  loaded and discovery (if enabled) has not failed, the run always goes on:
  with the upgrade flag the loop runs over the whole manifest, from its first log line to
  its last, and whatever happened in it, \<open>do\<close> then marshals and writes the manifest
  if the update flag is set, and returns nil if it is not; the only errors \<open>do\<close> can
  still return are those of marshalling and writing.
\<close>

theorem stages_in_order:
  "(\<exists>evs. trace (snd (do sys fl s)) = trace s @ ReadManifest (manifest_path sys fl) # evs \<and>
      sorted (map stage_of evs) \<and> list_all (\<lambda>e. 1 \<le> stage_of e \<and> stage_of e \<le> 3) evs \<and>
      (\<not> Update fl \<longrightarrow> list_all (\<lambda>e. stage_of e = 2) evs) \<and>
      (\<not> Upgrade fl \<longrightarrow> list_all (\<lambda>e. stage_of e \<noteq> 2) evs) \<and>
      (fst (do sys fl s) = None \<longrightarrow>
         (Update fl \<longrightarrow> Log Info Updating \<in> set evs \<and>
            (\<exists>out. last evs = WriteManifest (manifest_path sys fl) out)) \<and>
         (Upgrade fl \<longrightarrow> Log Info Upgrading \<in> set evs \<and> Log Info Upgraded \<in> set evs))) \<and>
   (ioutil_ReadFile sys (manifest_path sys fl) (world s) = Inl e \<longrightarrow>
      do sys fl s = (Some (Sys e), emit (ReadManifest (manifest_path sys fl)) s)) \<and>
   (ioutil_ReadFile sys (manifest_path sys fl) (world s) = Inr y \<and>
    yaml_Unmarshal sys y = Inl e \<longrightarrow>
      do sys fl s = (Some (Sys e), emit (ReadManifest (manifest_path sys fl)) s)) \<and>
   (ioutil_ReadFile sys (manifest_path sys fl) (world s) = Inr y \<and>
    yaml_Unmarshal sys y = Inr c \<and> Update fl \<and>
    update sys fl (emit (ReadManifest (manifest_path sys fl)) s\<lparr>config := c\<rparr>) = (Some e', s1) \<longrightarrow>
      do sys fl s = (Some e', s1) \<and>
      (\<exists>evs. trace s1 = trace s @ ReadManifest (manifest_path sys fl) # evs \<and>
         list_all (\<lambda>e. stage_of e = 1) evs)) \<and>
   fst (upgrade sys s) = None \<and>
   (ioutil_ReadFile sys (manifest_path sys fl) (world s) = Inr y \<and>
    yaml_Unmarshal sys y = Inr c \<and>
    (Update fl \<longrightarrow>
       fst (update sys fl (emit (ReadManifest (manifest_path sys fl)) s\<lparr>config := c\<rparr>)) = None) \<and>
    sd = (if Update fl
          then snd (update sys fl (emit (ReadManifest (manifest_path sys fl)) s\<lparr>config := c\<rparr>))
          else emit (ReadManifest (manifest_path sys fl)) s\<lparr>config := c\<rparr>) \<and>
    sr = (if Upgrade fl then snd (upgrade sys sd) else sd) \<longrightarrow>
      do sys fl s =
        (if Update fl then
           (case yaml_Marshal sys (config sr) of
              Inl e \<Rightarrow> (Some (Sys e), sr)
            | Inr out \<Rightarrow>
               (map_option Sys (fst (ioutil_WriteFile sys (manifest_path sys fl) out (world sr))),
                emit (WriteManifest (manifest_path sys fl) out)
                  (sr\<lparr>world :=
                     snd (ioutil_WriteFile sys (manifest_path sys fl) out (world sr))\<rparr>)))
         else (None, sr)) \<and>
      (Update fl \<longrightarrow>
         (\<exists>us. trace sd = trace s @ ReadManifest (manifest_path sys fl) # Log Info Updating # us \<and>
            list_all (\<lambda>e. stage_of e = 1) us)) \<and>
      (Upgrade fl \<longrightarrow>
         sr = emit (Log Info Upgraded)
                (upgrade_loop sys (Repos (config sd)) (emit (Log Info Upgrading) sd)) \<and>
         (\<exists>gs. trace sr = trace sd @ Log Info Upgrading # gs @ [Log Info Upgraded] \<and>
            list_all (\<lambda>e. stage_of e = 2) gs)))"
proof (intro conjI impI)
  from do_trace[of sys fl s] obtain us gs ps where
    t: "trace (snd (do sys fl s)) = trace s @ ReadManifest (manifest_path sys fl) # us @ gs @ ps"
    and l: "list_all (\<lambda>e. stage_of e = 1) us" "list_all (\<lambda>e. stage_of e = 2) gs"
      "list_all (\<lambda>e. stage_of e = 3) ps"
    and n: "\<not> Update fl \<longrightarrow> us = [] \<and> ps = []" "\<not> Upgrade fl \<longrightarrow> gs = []"
    and ok: "fst (do sys fl s) = None \<longrightarrow>
        (Update fl \<longrightarrow> Log Info Updating \<in> set us \<and>
           (\<exists>out. ps = [WriteManifest (manifest_path sys fl) out])) \<and>
        (Upgrade fl \<longrightarrow> Log Info Upgrading \<in> set gs \<and> Log Info Upgraded \<in> set gs)"
    by (elim exE conjE) (rule that)
  let ?evs = "us @ gs @ ps"
  have a: "sorted (map stage_of ?evs)"
    and b: "list_all (\<lambda>e. 1 \<le> stage_of e \<and> stage_of e \<le> 3) ?evs"
    using sorted_stages[OF l] by simp_all
  have c: "\<not> Update fl \<longrightarrow> list_all (\<lambda>e. stage_of e = 2) ?evs"
    using n(1) l(2) by simp
  have d: "\<not> Upgrade fl \<longrightarrow> list_all (\<lambda>e. stage_of e \<noteq> 2) ?evs"
    using n(2) l(1,3) by (auto simp: list_all_iff)
  have e: "fst (do sys fl s) = None \<longrightarrow>
         (Update fl \<longrightarrow> Log Info Updating \<in> set ?evs \<and>
            (\<exists>out. last ?evs = WriteManifest (manifest_path sys fl) out)) \<and>
         (Upgrade fl \<longrightarrow> Log Info Upgrading \<in> set ?evs \<and> Log Info Upgraded \<in> set ?evs)"
    using ok by auto
  from t a b c d e
  show "\<exists>evs. trace (snd (do sys fl s)) = trace s @ ReadManifest (manifest_path sys fl) # evs \<and>
      sorted (map stage_of evs) \<and> list_all (\<lambda>e. 1 \<le> stage_of e \<and> stage_of e \<le> 3) evs \<and>
      (\<not> Update fl \<longrightarrow> list_all (\<lambda>e. stage_of e = 2) evs) \<and>
      (\<not> Upgrade fl \<longrightarrow> list_all (\<lambda>e. stage_of e \<noteq> 2) evs) \<and>
      (fst (do sys fl s) = None \<longrightarrow>
         (Update fl \<longrightarrow> Log Info Updating \<in> set evs \<and>
            (\<exists>out. last evs = WriteManifest (manifest_path sys fl) out)) \<and>
         (Upgrade fl \<longrightarrow> Log Info Upgrading \<in> set evs \<and> Log Info Upgraded \<in> set evs))"
    by (intro exI[of _ ?evs] conjI)
next
  assume "ioutil_ReadFile sys (manifest_path sys fl) (world s) = Inl e"
  then show "do sys fl s = (Some (Sys e), emit (ReadManifest (manifest_path sys fl)) s)"
    by (rule do_load_failed)
next
  assume "ioutil_ReadFile sys (manifest_path sys fl) (world s) = Inr y \<and>
    yaml_Unmarshal sys y = Inl e"
  then show "do sys fl s = (Some (Sys e), emit (ReadManifest (manifest_path sys fl)) s)"
    by (simp add: do_parse_failed)
next
  assume a: "ioutil_ReadFile sys (manifest_path sys fl) (world s) = Inr y \<and>
    yaml_Unmarshal sys y = Inr c \<and> Update fl \<and>
    update sys fl (emit (ReadManifest (manifest_path sys fl)) s\<lparr>config := c\<rparr>) = (Some e', s1)"
  then show "do sys fl s = (Some e', s1)"
    by (simp add: do_update_failed)
  from a have u: "update sys fl (emit (ReadManifest (manifest_path sys fl)) s\<lparr>config := c\<rparr>)
      = (Some e', s1)" by blast
  from update_inv[OF u]
  show "\<exists>evs. trace s1 = trace s @ ReadManifest (manifest_path sys fl) # evs \<and>
         list_all (\<lambda>e. stage_of e = 1) evs"
    by (auto simp: emit_def)
next
  show "fst (upgrade sys s) = None" by (rule upgrade_result)
next
  assume a: "ioutil_ReadFile sys (manifest_path sys fl) (world s) = Inr y \<and>
    yaml_Unmarshal sys y = Inr c \<and>
    (Update fl \<longrightarrow>
       fst (update sys fl (emit (ReadManifest (manifest_path sys fl)) s\<lparr>config := c\<rparr>)) = None) \<and>
    sd = (if Update fl
          then snd (update sys fl (emit (ReadManifest (manifest_path sys fl)) s\<lparr>config := c\<rparr>))
          else emit (ReadManifest (manifest_path sys fl)) s\<lparr>config := c\<rparr>) \<and>
    sr = (if Upgrade fl then snd (upgrade sys sd) else sd)"
  let ?t = "emit (ReadManifest (manifest_path sys fl)) s\<lparr>config := c\<rparr>"
  from a have r: "ioutil_ReadFile sys (manifest_path sys fl) (world s) = Inr y"
    and y: "yaml_Unmarshal sys y = Inr c"
    and ok: "Update fl \<longrightarrow> fst (update sys fl ?t) = None"
    and sd: "sd = (if Update fl then snd (update sys fl ?t) else ?t)"
    and sr: "sr = (if Upgrade fl then snd (upgrade sys sd) else sd)"
    by blast+
  show "do sys fl s =
        (if Update fl then
           (case yaml_Marshal sys (config sr) of
              Inl e \<Rightarrow> (Some (Sys e), sr)
            | Inr out \<Rightarrow>
               (map_option Sys (fst (ioutil_WriteFile sys (manifest_path sys fl) out (world sr))),
                emit (WriteManifest (manifest_path sys fl) out)
                  (sr\<lparr>world :=
                     snd (ioutil_WriteFile sys (manifest_path sys fl) out (world sr))\<rparr>)))
         else (None, sr))"
    by (rule do_continues[OF r y sd ok sr])
  {
    assume u: "Update fl"
    obtain r0 where "update sys fl ?t = (r0, sd)" using sd u by (simp add: prod_eq_iff)
    from update_inv[OF this]
    show "\<exists>us. trace sd = trace s @ ReadManifest (manifest_path sys fl) # Log Info Updating # us \<and>
            list_all (\<lambda>e. stage_of e = 1) us"
      by (auto simp: emit_def)
  }
  {
    assume g: "Upgrade fl"
    with sr show "sr = emit (Log Info Upgraded)
                (upgrade_loop sys (Repos (config sd)) (emit (Log Info Upgrading) sd))"
      by (simp add: upgrade_def Let_def emit_def)
    from upgrade_trace[of sys sd] sr g
    show "\<exists>gs. trace sr = trace sd @ Log Info Upgrading # gs @ [Log Info Upgraded] \<and>
            list_all (\<lambda>e. stage_of e = 2) gs"
      by auto
  }
qed

theorem stages_in_order_witness:
  \<open>do demo_sys (demo_flags ''/r/a'') demo_state =
    (None, \<lparr>world = (), config = \<lparr>Repos =
        [\<lparr>Directory = ''/r/a'', Remote = ''u1''\<rparr>, \<lparr>Directory = ''/r/c'', Remote = ''uc''\<rparr>]\<rparr>,
        trace = [ReadManifest ''/r/a/repositories.txt'',
          Log Info Updating, Log Info (Updated 2),
          Log Info Upgrading,
          Exec (GitFetch ''/r/a''), Log Info (FetchFinished ''/r/a''),
          Exec (GitStatus ''/r/a''), Exec (GitPull ''/r/a''), Log Info (UpgradeFinished ''/r/a''),
          Exec (GitClone ''uc'' ''/r/c''),
          Log Error (CloneFailed ''/r/c'' (Sys (OsError ''exit status 128''))
            ''fatal: repository not found''),
          Log Info Upgraded,
          WriteManifest ''/r/a/repositories.txt'' ''repos: ...'']\<rparr>) \<and>
   ioutil_ReadFile demo_sys (manifest_path demo_sys (demo_flags ''/none'')) (world demo_state)
     = Inl NotExist \<and>
   do demo_sys (demo_flags ''/none'') demo_state =
     (Some (Sys NotExist), demo_state\<lparr>trace := [ReadManifest ''/none/repositories.txt'']\<rparr>) \<and>
   ioutil_ReadFile demo_sys (manifest_path demo_sys (demo_flags ''/bad'')) (world demo_state)
     = Inr ''{'' \<and>
   yaml_Unmarshal demo_sys ''{'' = Inl (OsError ''yaml: line 1'') \<and>
   do demo_sys (demo_flags ''/bad'') demo_state =
     (Some (Sys (OsError ''yaml: line 1'')),
      demo_state\<lparr>trace := [ReadManifest ''/bad/repositories.txt'']\<rparr>) \<and>
   ioutil_ReadFile demo_sys (manifest_path demo_sys (demo_flags ''/r'')) (world demo_state)
     = Inr ''repos: ...'' \<and>
   yaml_Unmarshal demo_sys ''repos: ...'' = Inr \<lparr>Repos = demo_manifest\<rparr> \<and>
   Update (demo_flags ''/r'') \<and>
   do demo_sys (demo_flags ''/r'') demo_state =
    (Some (Msg ''can't find "origin" in /r/b/.git''),
      \<lparr>world = (), config = \<lparr>Repos = demo_manifest @ [\<lparr>Directory = ''/r/a'', Remote = ''u1''\<rparr>]\<rparr>,
        trace = [ReadManifest ''/r/repositories.txt'', Log Info Updating,
          Log Info (Updated 3)]\<rparr>)\<close>
proof -
  have p: "manifest_path demo_sys (demo_flags root) = root @ ''/repositories.txt''" for root
    by (simp add: manifest_path_def demo_simps demo_flags_def)
  have r1: "ioutil_ReadFile demo_sys (manifest_path demo_sys (demo_flags ''/none''))
      (world demo_state) = Inl NotExist"
    and r2: "ioutil_ReadFile demo_sys (manifest_path demo_sys (demo_flags ''/bad''))
      (world demo_state) = Inr ''{''"
    and r3: "ioutil_ReadFile demo_sys (manifest_path demo_sys (demo_flags ''/r''))
      (world demo_state) = Inr ''repos: ...''"
    and y2: "yaml_Unmarshal demo_sys ''{'' = Inl (OsError ''yaml: line 1'')"
    and y3: "yaml_Unmarshal demo_sys ''repos: ...'' = Inr \<lparr>Repos = demo_manifest\<rparr>"
    by (simp_all add: p demo_fields)
  have u3: "Update (demo_flags ''/r'')" by (simp add: demo_flags_def)
  note load = stages_in_order[where sys = demo_sys and fl = "demo_flags ''/none''"
      and s = demo_state and e = NotExist, THEN conjunct2, THEN conjunct1]
  note parse = stages_in_order[where sys = demo_sys and fl = "demo_flags ''/bad''"
      and s = demo_state and y = "''{''" and e = "OsError ''yaml: line 1''",
      THEN conjunct2, THEN conjunct2, THEN conjunct1]
  have d1: "do demo_sys (demo_flags ''/none'') demo_state =
     (Some (Sys NotExist), demo_state\<lparr>trace := [ReadManifest ''/none/repositories.txt'']\<rparr>)"
    using load r1 by (simp add: p emit_def demo_state_def)
  have d2: "do demo_sys (demo_flags ''/bad'') demo_state =
     (Some (Sys (OsError ''yaml: line 1'')),
      demo_state\<lparr>trace := [ReadManifest ''/bad/repositories.txt'']\<rparr>)"
    using parse r2 y2 by (simp add: p emit_def demo_state_def)
  let ?fa = "demo_flags ''/r/a''"
  let ?sd = "\<lparr>world = (), config = \<lparr>Repos =
        [\<lparr>Directory = ''/r/a'', Remote = ''u1''\<rparr>, \<lparr>Directory = ''/r/c'', Remote = ''uc''\<rparr>]\<rparr>,
        trace = [ReadManifest ''/r/a/repositories.txt'', Log Info Updating,
          Log Info (Updated 2)]\<rparr>"
  let ?sr = "\<lparr>world = (), config = \<lparr>Repos =
        [\<lparr>Directory = ''/r/a'', Remote = ''u1''\<rparr>, \<lparr>Directory = ''/r/c'', Remote = ''uc''\<rparr>]\<rparr>,
        trace = [ReadManifest ''/r/a/repositories.txt'',
          Log Info Updating, Log Info (Updated 2),
          Log Info Upgrading,
          Exec (GitFetch ''/r/a''), Log Info (FetchFinished ''/r/a''),
          Exec (GitStatus ''/r/a''), Exec (GitPull ''/r/a''), Log Info (UpgradeFinished ''/r/a''),
          Exec (GitClone ''uc'' ''/r/c''),
          Log Error (CloneFailed ''/r/c'' (Sys (OsError ''exit status 128''))
            ''fatal: repository not found''),
          Log Info Upgraded]\<rparr>"
  have fa: "Update ?fa" "Upgrade ?fa" by (simp_all add: demo_flags_def)
  have ra: "ioutil_ReadFile demo_sys (manifest_path demo_sys ?fa) (world demo_state)
      = Inr ''repos: ...''"
    by (simp add: p demo_fields)
  have ua: "update demo_sys ?fa
      (emit (ReadManifest (manifest_path demo_sys ?fa)) demo_state\<lparr>config := \<lparr>Repos = demo_manifest\<rparr>\<rparr>)
      = (None, ?sd)"
    unfolding p by (simp add: emit_def demo_state_def demo_update_a)
  have ga: "upgrade demo_sys ?sd = (None, ?sr)"
    by (simp add: demo_upgrade)
  note run = stages_in_order[where sys = demo_sys and fl = ?fa and s = demo_state
      and y = "''repos: ...''" and c = "\<lparr>Repos = demo_manifest\<rparr>" and sd = ?sd and sr = ?sr,
      THEN conjunct2, THEN conjunct2, THEN conjunct2, THEN conjunct2, THEN conjunct2]
  have hyp: "ioutil_ReadFile demo_sys (manifest_path demo_sys ?fa) (world demo_state)
      = Inr ''repos: ...'' \<and>
    yaml_Unmarshal demo_sys ''repos: ...'' = Inr \<lparr>Repos = demo_manifest\<rparr> \<and>
    (Update ?fa \<longrightarrow>
       fst (update demo_sys ?fa (emit (ReadManifest (manifest_path demo_sys ?fa)) demo_state
         \<lparr>config := \<lparr>Repos = demo_manifest\<rparr>\<rparr>)) = None) \<and>
    ?sd = (if Update ?fa
          then snd (update demo_sys ?fa (emit (ReadManifest (manifest_path demo_sys ?fa)) demo_state
            \<lparr>config := \<lparr>Repos = demo_manifest\<rparr>\<rparr>))
          else emit (ReadManifest (manifest_path demo_sys ?fa)) demo_state
            \<lparr>config := \<lparr>Repos = demo_manifest\<rparr>\<rparr>) \<and>
    ?sr = (if Upgrade ?fa then snd (upgrade demo_sys ?sd) else ?sd)"
    unfolding ua ga using ra y3 fa by simp
  have da: "do demo_sys ?fa demo_state =
     (None, ?sr\<lparr>trace := trace ?sr @ [WriteManifest ''/r/a/repositories.txt'' ''repos: ...'']\<rparr>)"
  proof -
    have "do demo_sys ?fa demo_state =
        (if Update ?fa then
           (case yaml_Marshal demo_sys (config ?sr) of
              Inl e \<Rightarrow> (Some (Sys e), ?sr)
            | Inr out \<Rightarrow>
               (map_option Sys (fst (ioutil_WriteFile demo_sys (manifest_path demo_sys ?fa) out
                  (world ?sr))),
                emit (WriteManifest (manifest_path demo_sys ?fa) out)
                  (?sr\<lparr>world :=
                     snd (ioutil_WriteFile demo_sys (manifest_path demo_sys ?fa) out (world ?sr))\<rparr>)))
         else (None, ?sr))"
      by (rule run[THEN mp, OF hyp, THEN conjunct1])
    then show ?thesis unfolding p by (simp add: fa demo_fields emit_def)
  qed
  from d1 d2 r1 r2 r3 y2 y3 u3 da demo_do_r show ?thesis by simp
qed

text \<open>
  C4. When the remote of one of the repositories under the root cannot be extracted,
  \<open>update\<close> returns an error: if the tree itself can be walked without error, it is the
  extraction error of a repository under the root. With the update flag set, \<open>do\<close> then
  returns an error too, leaves the outside world as it was, runs no command and does not
  write the manifest.
\<close>

theorem failed_remote_aborts_run:
  assumes "p \<in> set (git_dirs sys (RootDir fl) (lstat_tree sys (RootDir fl) (world s)))"
    and "snd (remoteDir sys p (world s)) = Some e"
  shows "(\<exists>e'. fst (update sys fl s) = Some e' \<and>
       (tree_errors (lstat_tree sys (RootDir fl) (world s)) = [] \<longrightarrow>
          (\<exists>q \<in> set (git_dirs sys (RootDir fl) (lstat_tree sys (RootDir fl) (world s))).
             snd (remoteDir sys q (world s)) = Some e'))) \<and>
     (Update fl \<longrightarrow>
       (\<exists>e'. fst (do sys fl s) = Some e') \<and> world (snd (do sys fl s)) = world s \<and>
       (\<exists>evs. trace (snd (do sys fl s)) = trace s @ evs \<and>
          (\<forall>c. Exec c \<notin> set evs) \<and> (\<forall>f out. WriteManifest f out \<notin> set evs)))"
proof (intro conjI impI)
  obtain r s' where u: "update sys fl s = (r, s')" by (metis surj_pair)
  from update_inv[OF u] assms obtain e' where "r = Some e'" by (cases r) auto
  with update_inv[OF u] u
  show "\<exists>e'. fst (update sys fl s) = Some e' \<and>
       (tree_errors (lstat_tree sys (RootDir fl) (world s)) = [] \<longrightarrow>
          (\<exists>q \<in> set (git_dirs sys (RootDir fl) (lstat_tree sys (RootDir fl) (world s))).
             snd (remoteDir sys q (world s)) = Some e'))"
    by auto
next
  assume upd: "Update fl"
  let ?f = "manifest_path sys fl"
  let ?s0 = "emit (ReadManifest ?f) s"
  have "(\<exists>e'. fst (do sys fl s) = Some e') \<and> world (snd (do sys fl s)) = world s \<and>
       (\<exists>evs. trace (snd (do sys fl s)) = trace s @ evs \<and> list_all (\<lambda>e. stage_of e \<le> 1) evs)"
  proof (cases "ioutil_ReadFile sys ?f (world s)")
    case (Inl x)
    show ?thesis by (simp add: do_load_failed[OF Inl] emit_def)
  next
    case (Inr y)
    show ?thesis
    proof (cases "yaml_Unmarshal sys y")
      case (Inl x)
      show ?thesis by (simp add: do_parse_failed[OF Inr Inl] emit_def)
    next
      case c: (Inr c)
      let ?t = "?s0\<lparr>config := c\<rparr>"
      obtain r s' where u: "update sys fl ?t = (r, s')" by (metis surj_pair)
      have w: "world ?t = world s" by (simp add: emit_def)
      from update_inv[OF u] assms obtain e' where r: "r = Some e'"
        unfolding w by (cases r) auto
      from update_inv[OF u] obtain evs where
        "world s' = world s" "trace s' = trace s @ ReadManifest ?f # Log Info Updating # evs"
        "list_all (\<lambda>e. stage_of e = 1) evs"
        by (auto simp: emit_def)
      then show ?thesis
        by (simp add: do_update_failed[OF Inr c upd u[unfolded r]] list_all_iff)
    qed
  qed
  then obtain e' evs where d: "fst (do sys fl s) = Some e'" "world (snd (do sys fl s)) = world s"
    "trace (snd (do sys fl s)) = trace s @ evs" "list_all (\<lambda>e. stage_of e \<le> 1) evs"
    by blast
  from d(1) show "\<exists>e'. fst (do sys fl s) = Some e'" by blast
  from d(2) show "world (snd (do sys fl s)) = world s" .
  from d(4) have "(\<forall>c. Exec c \<notin> set evs) \<and> (\<forall>f out. WriteManifest f out \<notin> set evs)"
    by (fastforce simp: list_all_iff)
  with d(3) show "\<exists>evs. trace (snd (do sys fl s)) = trace s @ evs \<and>
          (\<forall>c. Exec c \<notin> set evs) \<and> (\<forall>f out. WriteManifest f out \<notin> set evs)"
    by blast
qed

theorem failed_remote_aborts_run_witness:
  \<open>''/r/b/.git'' \<in> set (git_dirs demo_sys ''/r'' (lstat_tree demo_sys ''/r'' (world demo_state))) \<and>
   snd (remoteDir demo_sys ''/r/b/.git'' (world demo_state))
     = Some (Msg ''can't find "origin" in /r/b/.git'') \<and>
   Update (demo_flags ''/r'') \<and>
   tree_errors (lstat_tree demo_sys ''/r'' (world demo_state)) = [] \<and>
   fst (update demo_sys (demo_flags ''/r'') demo_state) \<noteq> None \<and>
   do demo_sys (demo_flags ''/r'') demo_state =
    (Some (Msg ''can't find "origin" in /r/b/.git''),
      \<lparr>world = (), config = \<lparr>Repos = demo_manifest @ [\<lparr>Directory = ''/r/a'', Remote = ''u1''\<rparr>]\<rparr>,
        trace = [ReadManifest ''/r/repositories.txt'', Log Info Updating,
          Log Info (Updated 3)]\<rparr>)\<close>
proof -
  have g: "''/r/b/.git'' \<in> set (git_dirs demo_sys (RootDir (demo_flags ''/r''))
      (lstat_tree demo_sys (RootDir (demo_flags ''/r'')) (world demo_state)))"
    by (simp add: demo_fields demo_simps demo_tree_def demo_repo_def demo_flags_def)
  have r: \<open>snd (remoteDir demo_sys ''/r/b/.git'' (world demo_state))
     = Some (Msg ''can't find "origin" in /r/b/.git'')\<close>
    by (simp add: remoteDir_def demo_fields demo_simps)
  have t: "tree_errors (lstat_tree demo_sys ''/r'' (world demo_state)) = []"
    by (simp add: demo_fields demo_tree_def demo_repo_def)
  have u: "Update (demo_flags ''/r'')" by (simp add: demo_flags_def)
  from failed_remote_aborts_run[OF g r]
  have "fst (update demo_sys (demo_flags ''/r'') demo_state) \<noteq> None" by auto
  with g r t u demo_do_r show ?thesis by (simp add: demo_flags_def)
qed

lemma demo_parse_bad: "flag_Parse demo_sys [''-update=maybe''] flags_init = Exits 2"
  by (simp add: demo_sys_def ParseBool_def Let_def)

lemma demo_parse_dir: "flag_Parse demo_sys [''-dir'', root] flags_init = Parsed (demo_flags root)"
  by (simp add: demo_sys_def Let_def flags_init_def demo_flags_def)

lemma demo_do_a_from:
  "do demo_sys (demo_flags ''/r/a'') (demo_state\<lparr>trace := t\<rparr>) =
    (None, \<lparr>world = (), config = \<lparr>Repos =
        [\<lparr>Directory = ''/r/a'', Remote = ''u1''\<rparr>, \<lparr>Directory = ''/r/c'', Remote = ''uc''\<rparr>]\<rparr>,
        trace = t @ [ReadManifest ''/r/a/repositories.txt'',
          Log Info Updating, Log Info (Updated 2),
          Log Info Upgrading,
          Exec (GitFetch ''/r/a''), Log Info (FetchFinished ''/r/a''),
          Exec (GitStatus ''/r/a''), Exec (GitPull ''/r/a''), Log Info (UpgradeFinished ''/r/a''),
          Exec (GitClone ''uc'' ''/r/c''),
          Log Error (CloneFailed ''/r/c'' (Sys (OsError ''exit status 128''))
            ''fatal: repository not found''),
          Log Info Upgraded,
          WriteManifest ''/r/a/repositories.txt'' ''repos: ...'']\<rparr>)"
proof -
  have f: "manifest_path demo_sys (demo_flags ''/r/a'') = ''/r/a/repositories.txt''"
    by (simp add: manifest_path_def demo_simps demo_flags_def)
  have fl: "Update (demo_flags ''/r/a'')" "Upgrade (demo_flags ''/r/a'')"
    by (simp_all add: demo_flags_def)
  show ?thesis
    unfolding do_def Let_def f
    by (simp add: fl demo_fields emit_def demo_state_def demo_update_a demo_upgrade)
qed

text \<open>
  C9, as the specification states it, fails: \<open>main\<close> starts with \<open>flag.Parse\<close>, and a
  command line that does not parse (here a value for \<open>-update\<close> that is not a boolean)
  ends the process there with status 2, before anything is logged or done.
\<close>

theorem malformed_flag_exits_two:
  "flag_Parse demo_sys [''-update=maybe''] flags_init = Exits 2 \<and>
   main demo_sys [''-update=maybe''] demo_state = (2, demo_state)"
  by (simp add: main_def demo_parse_bad)

text \<open>
  C9, amended. When \<open>flag.Parse\<close> accepts the command line, the process ends with status
  0 whatever \<open>do\<close> returns: an error from \<open>do\<close> adds one error line to the log and
  changes nothing else, so a manifest that cannot be read leaves the start line, the read
  and the error line in the trace, and status 0. When \<open>flag.Parse\<close> ends the process, the
  status is the one it exits with and the state is untouched.
\<close>

theorem parsed_run_exits_zero:
  "(flag_Parse sys args flags_init = Parsed fl \<longrightarrow>
      fst (main sys args s) = 0 \<and>
      (do sys fl (emit (Log Info (RecursivelyCheck (RootDir fl))) s) = (Some e, s') \<longrightarrow>
         main sys args s = (0, emit (Log Error (TopError e)) s')) \<and>
      (do sys fl (emit (Log Info (RecursivelyCheck (RootDir fl))) s) = (None, s') \<longrightarrow>
         main sys args s = (0, s')) \<and>
      (ioutil_ReadFile sys (manifest_path sys fl) (world s) = Inl x \<longrightarrow>
         main sys args s =
           (0, s\<lparr>trace := trace s @ [Log Info (RecursivelyCheck (RootDir fl)),
                 ReadManifest (manifest_path sys fl), Log Error (TopError (Sys x))]\<rparr>))) \<and>
   (flag_Parse sys args flags_init = Exits n \<longrightarrow> main sys args s = (n, s))"
proof (intro conjI impI)
  let ?s0 = "emit (Log Info (RecursivelyCheck (RootDir fl))) s"
  assume p: "flag_Parse sys args flags_init = Parsed fl"
  then have m: "main sys args s =
      (case do sys fl ?s0 of
         (Some e, s') \<Rightarrow> (0, emit (Log Error (TopError e)) s')
       | (None, s') \<Rightarrow> (0, s'))"
    by (simp add: main_def)
  obtain r t where d: "do sys fl ?s0 = (r, t)" by (metis surj_pair)
  show "fst (main sys args s) = 0"
    unfolding m d by (cases r) simp_all
  {
    assume "do sys fl ?s0 = (Some e, s')"
    then show "main sys args s = (0, emit (Log Error (TopError e)) s')"
      unfolding m by simp
  }
  {
    assume "do sys fl ?s0 = (None, s')"
    then show "main sys args s = (0, s')"
      unfolding m by simp
  }
  {
    assume "ioutil_ReadFile sys (manifest_path sys fl) (world s) = Inl x"
    then have "ioutil_ReadFile sys (manifest_path sys fl) (world ?s0) = Inl x"
      by (simp add: world_emit)
    from do_load_failed[OF this]
    show "main sys args s =
           (0, s\<lparr>trace := trace s @ [Log Info (RecursivelyCheck (RootDir fl)),
                 ReadManifest (manifest_path sys fl), Log Error (TopError (Sys x))]\<rparr>)"
      unfolding m by (simp add: emit_def)
  }
next
  assume "flag_Parse sys args flags_init = Exits n"
  then show "main sys args s = (n, s)" by (simp add: main_def)
qed

theorem parsed_run_exits_zero_witness:
  "flag_Parse demo_sys [''-dir'', ''/none''] flags_init = Parsed (demo_flags ''/none'') \<and>
   ioutil_ReadFile demo_sys (manifest_path demo_sys (demo_flags ''/none'')) (world demo_state)
     = Inl NotExist \<and>
   main demo_sys [''-dir'', ''/none''] demo_state =
     (0, demo_state\<lparr>trace := [Log Info (RecursivelyCheck ''/none''),
        ReadManifest ''/none/repositories.txt'', Log Error (TopError (Sys NotExist))]\<rparr>) \<and>
   flag_Parse demo_sys [''-dir'', ''/r/a''] flags_init = Parsed (demo_flags ''/r/a'') \<and>
   main demo_sys [''-dir'', ''/r/a''] demo_state =
     (0, \<lparr>world = (), config = \<lparr>Repos =
        [\<lparr>Directory = ''/r/a'', Remote = ''u1''\<rparr>, \<lparr>Directory = ''/r/c'', Remote = ''uc''\<rparr>]\<rparr>,
        trace = [Log Info (RecursivelyCheck ''/r/a''),
          ReadManifest ''/r/a/repositories.txt'',
          Log Info Updating, Log Info (Updated 2),
          Log Info Upgrading,
          Exec (GitFetch ''/r/a''), Log Info (FetchFinished ''/r/a''),
          Exec (GitStatus ''/r/a''), Exec (GitPull ''/r/a''), Log Info (UpgradeFinished ''/r/a''),
          Exec (GitClone ''uc'' ''/r/c''),
          Log Error (CloneFailed ''/r/c'' (Sys (OsError ''exit status 128''))
            ''fatal: repository not found''),
          Log Info Upgraded,
          WriteManifest ''/r/a/repositories.txt'' ''repos: ...'']\<rparr>) \<and>
   flag_Parse demo_sys [''-upgrade=2''] flags_init = Exits 2 \<and>
   main demo_sys [''-upgrade=2''] demo_state = (2, demo_state)"
proof -
  have pn: "flag_Parse demo_sys [''-dir'', ''/none''] flags_init = Parsed (demo_flags ''/none'')"
    and pa: "flag_Parse demo_sys [''-dir'', ''/r/a''] flags_init = Parsed (demo_flags ''/r/a'')"
    by (rule demo_parse_dir)+
  have px: "flag_Parse demo_sys [''-upgrade=2''] flags_init = Exits 2"
    by (simp add: demo_sys_def ParseBool_def Let_def)
  have mpath: "manifest_path demo_sys (demo_flags root) = root @ ''/repositories.txt''" for root
    by (simp add: manifest_path_def demo_simps demo_flags_def)
  have rn: "ioutil_ReadFile demo_sys (manifest_path demo_sys (demo_flags ''/none''))
      (world demo_state) = Inl NotExist"
    by (simp add: mpath demo_fields)
  have root: "RootDir (demo_flags r) = r" for r by (simp add: demo_flags_def)
  note t = parsed_run_exits_zero[where sys = demo_sys and s = demo_state]
  have m1: "main demo_sys [''-dir'', ''/none''] demo_state =
     (0, demo_state\<lparr>trace := [Log Info (RecursivelyCheck ''/none''),
        ReadManifest ''/none/repositories.txt'', Log Error (TopError (Sys NotExist))]\<rparr>)"
    using t[where args = "[''-dir'', ''/none'']" and fl = "demo_flags ''/none''" and x = NotExist,
        THEN conjunct1, THEN mp, OF pn, THEN conjunct2, THEN conjunct2, THEN conjunct2,
        THEN mp, OF rn]
    by (simp add: mpath root demo_state_def)
  have da: "do demo_sys (demo_flags ''/r/a'')
      (emit (Log Info (RecursivelyCheck (RootDir (demo_flags ''/r/a'')))) demo_state) =
     (None, \<lparr>world = (), config = \<lparr>Repos =
        [\<lparr>Directory = ''/r/a'', Remote = ''u1''\<rparr>, \<lparr>Directory = ''/r/c'', Remote = ''uc''\<rparr>]\<rparr>,
        trace = [Log Info (RecursivelyCheck ''/r/a'')] @ [ReadManifest ''/r/a/repositories.txt'',
          Log Info Updating, Log Info (Updated 2),
          Log Info Upgrading,
          Exec (GitFetch ''/r/a''), Log Info (FetchFinished ''/r/a''),
          Exec (GitStatus ''/r/a''), Exec (GitPull ''/r/a''), Log Info (UpgradeFinished ''/r/a''),
          Exec (GitClone ''uc'' ''/r/c''),
          Log Error (CloneFailed ''/r/c'' (Sys (OsError ''exit status 128''))
            ''fatal: repository not found''),
          Log Info Upgraded,
          WriteManifest ''/r/a/repositories.txt'' ''repos: ...'']\<rparr>)"
    using demo_do_a_from[of "[Log Info (RecursivelyCheck ''/r/a'')]"]
    by (simp add: emit_def root demo_state_def)
  note m2 = t[where args = "[''-dir'', ''/r/a'']" and fl = "demo_flags ''/r/a''",
        THEN conjunct1, THEN mp, OF pa, THEN conjunct2, THEN conjunct2, THEN conjunct1,
        THEN mp, OF da]
  note m3 = t[where args = "[''-upgrade=2'']" and n = 2, THEN conjunct2, THEN mp, OF px]
  from pn pa px rn m1 m2 m3 show ?thesis by simp
qed

end
